theory Spec2Isabelle
  imports Main
begin

section \<open>Values and documents\<close>

text \<open>
  The values that travel through the program: JSON values of a request body, and the
  field values of a stored contact. \<open>JDate\<close> is a JavaScript \<open>Date\<close> (milliseconds since
  the epoch); it only arises from \<open>new Date()\<close>. JSON numbers are kept as integers: the
  program only tests them for truthiness.
\<close>

datatype jsval =
    JNull
  | JBool bool
  | JNum int
  | JStr string
  | JDate int
  | JArr "jsval list"
  | JObj "(string \<times> jsval) list"

text \<open>A JavaScript object literal, and the fields of a document: names with values, in order.\<close>

type_synonym fields = "(string \<times> jsval) list"

text \<open>JavaScript truthiness, as \<open>!x\<close>, \<open>x ? a : b\<close> and \<open>x || y\<close> use it.\<close>

fun truthy :: "jsval \<Rightarrow> bool" where
  "truthy JNull = False"
| "truthy (JBool b) = b"
| "truthy (JNum n) = (n \<noteq> 0)"
| "truthy (JStr s) = (s \<noteq> [])"
| "truthy (JDate t) = True"
| "truthy (JArr xs) = True"
| "truthy (JObj kvs) = True"

text \<open>A variable that may be \<open>undefined\<close> is an option; \<open>undefined\<close> is falsy.\<close>

fun truthy_opt :: "jsval option \<Rightarrow> bool" where
  "truthy_opt None = False"
| "truthy_opt (Some v) = truthy v"

text \<open>\<open>Array.isArray\<close>.\<close>

fun isArray :: "jsval option \<Rightarrow> bool" where
  "isArray (Some (JArr xs)) = True"
| "isArray _ = False"

text \<open>Reading a property of a value: only objects have the properties the program reads.\<close>

fun get_prop :: "jsval \<Rightarrow> string \<Rightarrow> jsval option" where
  "get_prop (JObj kvs) k = map_of kvs k"
| "get_prop _ k = None"

text \<open>
  A stored document: the storage key \<open>_id\<close> (an ObjectId, here a number) and the other
  fields.
\<close>

record doc =
  d_id :: nat
  d_fields :: fields

text \<open>
  The collection: its documents in insertion order, and the next ObjectId the store
  will hand out.
\<close>

record store =
  docs :: "doc list"
  next_id :: nat

definition empty_store :: store where
  "empty_store = \<lparr>docs = [], next_id = 0\<rparr>"

section \<open>The document store\<close>

text \<open>
  The collection lives in a database and is reached through the database driver, which
  is not part of the sources. This section models the driver's calls that the program
  makes, from the spec's description of the Contact Store Gateway (section 4.1), on a
  store that is reachable and serves one request at a time. Connection failures are
  outside the model, and \<open>createIndex\<close>, the spec's idempotent EnsureUniqueIndex, does
  not change the documents and has no counterpart here.
\<close>

text \<open>Setting one field: in place when the document has it, appended otherwise.\<close>

fun set_field :: "string \<Rightarrow> jsval \<Rightarrow> fields \<Rightarrow> fields" where
  "set_field k v [] = [(k, v)]"
| "set_field k v (p # ps) = (if fst p = k then (k, v) # ps else p # set_field k v ps)"

text \<open>Applying \<open>fieldsToSet\<close> (the \<open>$set\<close> document) to the fields of a document.\<close>

fun set_fields :: "fields \<Rightarrow> fields \<Rightarrow> fields" where
  "set_fields [] d = d"
| "set_fields ((k, v) # fs) d = set_fields fs (set_field k v d)"

text \<open>
  An equality condition \<open>{k: v}\<close> of a filter: the field equals \<open>v\<close>, or is an array with
  \<open>v\<close> among its elements; a missing field only equals \<open>null\<close>.
\<close>

fun value_matches :: "jsval option \<Rightarrow> jsval \<Rightarrow> bool" where
  "value_matches None v = (v = JNull)"
| "value_matches (Some (JArr xs)) v = (JArr xs = v \<or> v \<in> set xs)"
| "value_matches (Some w) v = (w = v)"

text \<open>A filter is a conjunction of equality conditions; \<open>{}\<close> matches every document.\<close>

definition matches :: "fields \<Rightarrow> doc \<Rightarrow> bool" where
  "matches f d = list_all (\<lambda>(k, v). value_matches (map_of (d_fields d) k) v) f"

text \<open>The position of the first document, in the store's order, that matches.\<close>

fun first_match :: "fields \<Rightarrow> doc list \<Rightarrow> nat option" where
  "first_match f [] = None"
| "first_match f (d # ds) =
     (if matches f d then Some 0
      else (case first_match f ds of None \<Rightarrow> None | Some i \<Rightarrow> Some (Suc i)))"

text \<open>The update document: \<open>$set\<close> and \<open>$setOnInsert\<close> (each empty when absent).\<close>

record update =
  u_set :: fields
  u_setOnInsert :: fields

text \<open>What the driver returns from \<open>updateOne\<close>.\<close>

record update_result =
  matchedCount :: nat
  modifiedCount :: nat
  upsertedCount :: nat
  r_upsertedId :: "nat option"

text \<open>
  Modelled from the spec: \<open>col.updateOne(filter, update, {upsert})\<close> of the database
  driver, the spec's ConditionalUpdate (\<open>upsert\<close> off) and Upsert (\<open>upsert\<close> on). With a
  match, \<open>$set\<close> is applied to the first matching document and \<open>$setOnInsert\<close> is
  ignored; \<open>modifiedCount\<close> counts the document only when it changed. Without a match
  nothing happens, unless \<open>upsert\<close> is on: then a new document is created from the
  filter's fields, \<open>$set\<close> and \<open>$setOnInsert\<close>, under a fresh \<open>_id\<close>. The unique index
  on \<open>email\<close> only turns away a write that would give two contacts one email; the
  program's upserts select by \<open>{email: v}\<close> and never set \<open>email\<close> to another value, so
  the model has no write that is turned away.
\<close>

definition updateOne :: "store \<Rightarrow> fields \<Rightarrow> update \<Rightarrow> bool \<Rightarrow> update_result \<times> store" where
  "updateOne s f u upsert =
     (case first_match f (docs s) of
        Some i \<Rightarrow>
          (let d = docs s ! i;
               fs' = set_fields (u_set u) (d_fields d)
           in (\<lparr>matchedCount = 1,
                modifiedCount = (if fs' = d_fields d then 0 else 1),
                upsertedCount = 0,
                r_upsertedId = None\<rparr>,
               s\<lparr>docs := (docs s)[i := d\<lparr>d_fields := fs'\<rparr>]\<rparr>))
      | None \<Rightarrow>
          (if upsert then
             (\<lparr>matchedCount = 0, modifiedCount = 0, upsertedCount = 1,
               r_upsertedId = Some (next_id s)\<rparr>,
              \<lparr>docs = docs s @
                 [\<lparr>d_id = next_id s,
                   d_fields = set_fields (u_setOnInsert u) (set_fields (u_set u) f)\<rparr>],
               next_id = Suc (next_id s)\<rparr>)
           else
             (\<lparr>matchedCount = 0, modifiedCount = 0, upsertedCount = 0,
               r_upsertedId = None\<rparr>, s)))"

text \<open>\<open>findOne(filter)\<close>: the first matching document, if any.\<close>

definition find_one :: "store \<Rightarrow> fields \<Rightarrow> doc option" where
  "find_one s f = map_option (\<lambda>i. docs s ! i) (first_match f (docs s))"

text \<open>The value of a field of a document; \<open>None\<close> when the document does not have it.\<close>

definition field_of :: "string \<Rightarrow> doc \<Rightarrow> jsval option" where
  "field_of k d = map_of (d_fields d) k"

text \<open>
  \<open>keeps k s s'\<close>: every document of \<open>s\<close> is still in \<open>s'\<close>, at its place and under its
  \<open>_id\<close>, with the value of field \<open>k\<close> it had (or still without the field).
\<close>

definition keeps :: "string \<Rightarrow> store \<Rightarrow> store \<Rightarrow> bool" where
  "keeps k s s' =
     (map (\<lambda>d. (d_id d, field_of k d)) (take (length (docs s)) (docs s')) =
      map (\<lambda>d. (d_id d, field_of k d)) (docs s))"

text \<open>The documents of \<open>s'\<close> that came after those of \<open>s\<close>: the ones a request created.\<close>

definition new_docs :: "store \<Rightarrow> store \<Rightarrow> doc list" where
  "new_docs s s' = drop (length (docs s)) (docs s')"

text \<open>
  Modelled from the spec: \<open>countDocuments(filter)\<close> and \<open>deleteMany({})\<close> of the driver,
  the count of ListPage and the spec's DeleteAll.
\<close>

definition countDocuments :: "store \<Rightarrow> fields \<Rightarrow> nat" where
  "countDocuments s f = length (filter (matches f) (docs s))"

definition deleteAll :: "store \<Rightarrow> store" where
  "deleteAll s = s\<lparr>docs := []\<rparr>"

subsection \<open>Sorted reads\<close>

text \<open>
  The order of \<open>sort({email: 1})\<close>: values are grouped by type (null and missing first,
  then numbers, strings, objects, arrays, booleans, dates); strings compare by their
  characters, numbers, booleans and dates by value. Two objects or two arrays count as
  equal here, so they keep their stored order.
\<close>

fun str_le :: "string \<Rightarrow> string \<Rightarrow> bool" where
  "str_le [] t = True"
| "str_le (a # ar) [] = False"
| "str_le (a # ar) (b # br) =
     ((of_char a :: nat) < of_char b \<or> (a = b \<and> str_le ar br))"

fun type_rank :: "jsval option \<Rightarrow> nat" where
  "type_rank None = 1"
| "type_rank (Some JNull) = 1"
| "type_rank (Some (JNum n)) = 2"
| "type_rank (Some (JStr s)) = 3"
| "type_rank (Some (JObj kvs)) = 4"
| "type_rank (Some (JArr xs)) = 5"
| "type_rank (Some (JBool b)) = 8"
| "type_rank (Some (JDate t)) = 9"

fun same_rank_le :: "jsval option \<Rightarrow> jsval option \<Rightarrow> bool" where
  "same_rank_le (Some (JNum m)) (Some (JNum n)) = (m \<le> n)"
| "same_rank_le (Some (JStr s)) (Some (JStr t)) = str_le s t"
| "same_rank_le (Some (JBool a)) (Some (JBool b)) = (b \<or> \<not> a)"
| "same_rank_le (Some (JDate s)) (Some (JDate t)) = (s \<le> t)"
| "same_rank_le a b = True"

definition key_le :: "jsval option \<Rightarrow> jsval option \<Rightarrow> bool" where
  "key_le a b =
     (type_rank a < type_rank b \<or> (type_rank a = type_rank b \<and> same_rank_le a b))"

definition email_of :: "doc \<Rightarrow> jsval option" where
  "email_of d = field_of ''email'' d"

fun insert_by_email :: "doc \<Rightarrow> doc list \<Rightarrow> doc list" where
  "insert_by_email d [] = [d]"
| "insert_by_email d (e # es) =
     (if key_le (email_of e) (email_of d) then e # insert_by_email d es else d # e # es)"

definition sort_by_email :: "doc list \<Rightarrow> doc list" where
  "sort_by_email ds = foldl (\<lambda>acc d. insert_by_email d acc) [] ds"

text \<open>
  Modelled from the spec: \<open>find(filter, {projection: {_id: 0}}).sort({email: 1})\<close> of
  the driver, the read of ListPage: the matching documents in email order, without their
  storage key.
\<close>

definition find_sorted :: "store \<Rightarrow> fields \<Rightarrow> fields list" where
  "find_sorted s f = map d_fields (sort_by_email (filter (matches f) (docs s)))"

section \<open>The demo script\<close>

text \<open>An Operation Result, as \<open>normalize\<close> builds it; \<open>None\<close> is \<open>null\<close>.\<close>

record op_result =
  matched :: nat
  modified :: nat
  upsertedId :: "string option"

text \<open>\<open>ObjectId.toString()\<close>: 24 hexadecimal digits.\<close>

definition hexdigit :: "nat \<Rightarrow> char" where
  "hexdigit n = ''0123456789abcdef'' ! (n mod 16)"

definition oid_toString :: "nat \<Rightarrow> string" where
  "oid_toString n = map (\<lambda>i. hexdigit (n div 16 ^ (23 - i))) [0..<24]"

text \<open>
  \<open>normalize\<close>. The driver always fills the two counts, so their \<open>?? 0\<close> defaults are
  never taken; \<open>upsertedId\<close> is \<open>null\<close> unless the call inserted.
\<close>

definition normalize :: "update_result \<Rightarrow> op_result" where
  "normalize r =
     \<lparr>matched = matchedCount r,
      modified = modifiedCount r,
      upsertedId = map_option oid_toString (r_upsertedId r)\<rparr>"

record report =
  updateExisting :: op_result
  updateMissingNoUpsert :: op_result
  upsertMissing :: op_result
  finalDocs :: "fields list"

text \<open>The four writes of the script, with the literals of the source.\<close>

definition aarti_filter :: fields where
  "aarti_filter = [(''email'', JStr ''aarti@shade.org.in'')]"

definition missing_filter :: fields where
  "missing_filter = [(''email'', JStr ''missing@example.com'')]"

definition demo_seed :: "store \<Rightarrow> update_result \<times> store" where
  "demo_seed s =
     updateOne s aarti_filter
       \<lparr>u_set = [],
        u_setOnInsert = [(''email'', JStr ''aarti@shade.org.in''), (''name'', JStr ''Aarti''),
                         (''city'', JStr ''Chennai'')]\<rparr>
       True"

definition demo_stepA :: "store \<Rightarrow> update_result \<times> store" where
  "demo_stepA s =
     updateOne s aarti_filter
       \<lparr>u_set = [(''city'', JStr ''Chennai (Adyar)'')], u_setOnInsert = []\<rparr> False"

definition demo_stepB :: "store \<Rightarrow> update_result \<times> store" where
  "demo_stepB s =
     updateOne s missing_filter
       \<lparr>u_set = [(''city'', JStr ''Mumbai'')], u_setOnInsert = []\<rparr> False"

definition demo_stepC :: "int \<Rightarrow> store \<Rightarrow> update_result \<times> store" where
  "demo_stepC now s =
     updateOne s missing_filter
       \<lparr>u_set = [(''city'', JStr ''Mumbai'')],
        u_setOnInsert = [(''createdAt'', JDate now), (''tags'', JArr [JStr ''Prospect''])]\<rparr>
       True"

text \<open>
  \<open>runUpdateUpsertDemo\<close>: seed, steps A, B and C, then the snapshot. \<open>now\<close> is the clock
  read by \<open>new Date()\<close> in step C. The result of the seed is not reported.
\<close>

definition runUpdateUpsertDemo :: "int \<Rightarrow> store \<Rightarrow> report \<times> store" where
  "runUpdateUpsertDemo now s0 =
     (let (r0, s1) = demo_seed s0;
          (r1, s2) = demo_stepA s1;
          (r2, s3) = demo_stepB s2;
          (r3, s4) = demo_stepC now s3
      in (\<lparr>updateExisting = normalize r1,
           updateMissingNoUpsert = normalize r2,
           upsertMissing = normalize r3,
           finalDocs = find_sorted s4 []\<rparr>, s4))"

section \<open>The HTTP handlers\<close>

text \<open>
  A response: 200 with \<open>{ok: true, ...}\<close>, 400 with \<open>{ok: false, error: msg}\<close>, or 500
  with \<open>{ok: false, error: e.message}\<close> from a handler's \<open>catch\<close>. The store of the
  model fails in one place only, the read of \<open>/list-contacts\<close> with a page that is not a
  number, so that is the one \<open>catch\<close> the model reaches.
\<close>

record page_result =
  pg_page :: int
  pg_pageSize :: int
  pg_total :: nat
  pg_docs :: "fields list"

record bulk_result =
  b_matched :: nat
  b_modified :: nat
  b_upserts :: nat

datatype payload =
    DemoReport report
  | Deleted
  | Sample bulk_result nat
  | Page page_result
  | OpRes op_result

datatype response =
    Success payload
  | BadRequest string
  | ServerError

fun status :: "response \<Rightarrow> nat" where
  "status (Success p) = 200"
| "status (BadRequest msg) = 400"
| "status ServerError = 500"

subsection \<open>POST /run-demo and POST /clear-data\<close>

definition run_demo :: "int \<Rightarrow> store \<Rightarrow> response \<times> store" where
  "run_demo now s = (let (rep, s') = runUpdateUpsertDemo now s in (Success (DemoReport rep), s'))"

definition clear_data :: "store \<Rightarrow> response \<times> store" where
  "clear_data s = (Success Deleted, deleteAll s)"

subsection \<open>POST /insert-sample\<close>

definition sample_op :: "int \<Rightarrow> string \<Rightarrow> string \<Rightarrow> string \<Rightarrow> string \<Rightarrow> fields \<times> update" where
  "sample_op now email name city tag =
     ([(''email'', JStr email)],
      \<lparr>u_set = [],
       u_setOnInsert = [(''email'', JStr email), (''name'', JStr name), (''city'', JStr city),
                        (''tags'', JArr [JStr tag]), (''createdAt'', JDate now)]\<rparr>)"

definition sample_ops :: "int \<Rightarrow> (fields \<times> update) list" where
  "sample_ops now =
     [sample_op now ''aarti@shade.org.in'' ''Aarti'' ''Chennai'' ''Volunteer'',
      sample_op now ''rahul@example.com'' ''Rahul'' ''Bengaluru'' ''Donor'',
      sample_op now ''latha@example.com'' ''Latha'' ''Mumbai'' ''Prospect'']"

text \<open>
  \<open>bulkWrite\<close> of upserts: the operations one after the other, their counts added up.
  (The three operations are on different emails, so the order the store picks for an
  unordered bulk write does not change the documents.)
\<close>

fun bulkWrite :: "store \<Rightarrow> (fields \<times> update) list \<Rightarrow> bulk_result \<times> store" where
  "bulkWrite s [] = (\<lparr>b_matched = 0, b_modified = 0, b_upserts = 0\<rparr>, s)"
| "bulkWrite s ((f, u) # ops) =
     (let (r, s') = updateOne s f u True;
          (b, s'') = bulkWrite s' ops
      in (\<lparr>b_matched = matchedCount r + b_matched b,
           b_modified = modifiedCount r + b_modified b,
           b_upserts = upsertedCount r + b_upserts b\<rparr>, s''))"

definition insert_sample :: "int \<Rightarrow> store \<Rightarrow> response \<times> store" where
  "insert_sample now s =
     (let (b, s') = bulkWrite s (sample_ops now)
      in (Success (Sample b (countDocuments s' [])), s'))"

subsection \<open>GET /list-contacts\<close>

text \<open>A JavaScript number that is an integer, or \<open>NaN\<close>.\<close>

datatype jsnum = Num int | NaN

text \<open>
  \<open>parseInt(s, 10)\<close>: leading white space is skipped, then an optional sign, then the
  longest run of decimal digits; \<open>NaN\<close> when there is no digit. Two things are
  simpler here than in JavaScript: white space is the ASCII white space only (not
  U+00A0 and the other Unicode spaces), and the digits give an exact integer, where
  JavaScript rounds a long run of digits to a double.
\<close>

definition is_ws :: "char \<Rightarrow> bool" where
  "is_ws c = (c \<in> set [CHR '' '', CHR 0x09, CHR 0x0A, CHR 0x0B, CHR 0x0C, CHR 0x0D])"

definition is_digit :: "char \<Rightarrow> bool" where
  "is_digit c = (48 \<le> (of_char c :: nat) \<and> (of_char c :: nat) \<le> 57)"

definition digits_value :: "string \<Rightarrow> int" where
  "digits_value ds = foldl (\<lambda>acc c. 10 * acc + (int (of_char c) - 48)) 0 ds"

definition parse_digits :: "string \<Rightarrow> jsnum" where
  "parse_digits s =
     (let ds = takeWhile is_digit s in if ds = [] then NaN else Num (digits_value ds))"

fun negate :: "jsnum \<Rightarrow> jsnum" where
  "negate (Num n) = Num (- n)"
| "negate NaN = NaN"

definition parseInt :: "string \<Rightarrow> jsnum" where
  "parseInt s =
     (case dropWhile is_ws s of
        [] \<Rightarrow> NaN
      | c # cs \<Rightarrow>
          (if c = CHR ''-'' then negate (parse_digits cs)
           else if c = CHR ''+'' then parse_digits cs
           else parse_digits (c # cs)))"

text \<open>\<open>Math.max\<close> and \<open>Math.min\<close>: \<open>NaN\<close> when an argument is \<open>NaN\<close>.\<close>

fun math_max :: "jsnum \<Rightarrow> jsnum \<Rightarrow> jsnum" where
  "math_max (Num a) (Num b) = Num (max a b)"
| "math_max _ _ = NaN"

fun math_min :: "jsnum \<Rightarrow> jsnum \<Rightarrow> jsnum" where
  "math_min (Num a) (Num b) = Num (min a b)"
| "math_min _ _ = NaN"

text \<open>\<open>String.prototype.trim\<close>, for the ASCII white space.\<close>

definition trim :: "string \<Rightarrow> string" where
  "trim s = rev (dropWhile is_ws (rev (dropWhile is_ws s)))"

text \<open>\<open>x || d\<close> for a query parameter: the default when it is missing or empty.\<close>

fun or_default :: "string option \<Rightarrow> string \<Rightarrow> string" where
  "or_default None d = d"
| "or_default (Some s) d = (if s = [] then d else s)"

text \<open>The query string: each parameter missing or a string.\<close>

record query =
  q_page :: "string option"
  q_pageSize :: "string option"
  q_city :: "string option"
  q_tag :: "string option"

definition list_page :: "query \<Rightarrow> jsnum" where
  "list_page q = math_max (Num 1) (parseInt (or_default (q_page q) ''1''))"

definition list_pageSize :: "query \<Rightarrow> jsnum" where
  "list_pageSize q =
     math_min (Num 100) (math_max (Num 1) (parseInt (or_default (q_pageSize q) ''10'')))"

definition list_filter :: "query \<Rightarrow> fields" where
  "list_filter q =
     (let city = trim (or_default (q_city q) []);
          tag = trim (or_default (q_tag q) [])
      in (if city \<noteq> [] then [(''city'', JStr city)] else []) @
         (if tag \<noteq> [] then [(''tags'', JStr tag)] else []))"

text \<open>
  The handler. With numbers for page and page size the store returns the page; a
  \<open>skip\<close> or \<open>limit\<close> of \<open>NaN\<close> is not an integer, the store refuses the read and the
  handler's \<open>catch\<close> answers 500.
\<close>

definition list_contacts :: "query \<Rightarrow> store \<Rightarrow> response \<times> store" where
  "list_contacts q s =
     (case (list_page q, list_pageSize q) of
        (Num p, Num n) \<Rightarrow>
          (Success (Page
             \<lparr>pg_page = p, pg_pageSize = n,
              pg_total = countDocuments s (list_filter q),
              pg_docs = take (nat n) (drop (nat ((p - 1) * n)) (find_sorted s (list_filter q)))\<rparr>),
           s)
      | _ \<Rightarrow> (ServerError, s))"

subsection \<open>POST /upsert-contact\<close>

text \<open>\<open>req.body || {}\<close>; the body is missing when the request carried no JSON.\<close>

fun body_or_empty :: "jsval option \<Rightarrow> jsval" where
  "body_or_empty None = JObj []"
| "body_or_empty (Some b) = (if truthy b then b else JObj [])"

text \<open>\<open>...(c ? {k} : {})\<close>: the field when the condition holds, nothing otherwise.\<close>

fun spread_if :: "bool \<Rightarrow> string \<Rightarrow> jsval option \<Rightarrow> fields" where
  "spread_if c k (Some v) = (if c then [(k, v)] else [])"
| "spread_if c k None = []"

text \<open>The \<open>$set\<close> document of the handler; \<open>now\<close> is the clock at \<open>updatedAt: new Date()\<close>.\<close>

definition upsert_set :: "jsval \<Rightarrow> int \<Rightarrow> fields" where
  "upsert_set b now =
     spread_if (truthy_opt (get_prop b ''name'')) ''name'' (get_prop b ''name'') @
     spread_if (truthy_opt (get_prop b ''city'')) ''city'' (get_prop b ''city'') @
     spread_if (isArray (get_prop b ''tags'')) ''tags'' (get_prop b ''tags'') @
     [(''updatedAt'', JDate now)]"

text \<open>
  The update the handler sends: \<open>now1\<close> and \<open>now2\<close> are the two readings of the
  clock, for \<open>updatedAt\<close> and for \<open>createdAt\<close>.
\<close>

definition upsert_update :: "jsval \<Rightarrow> int \<Rightarrow> int \<Rightarrow> update" where
  "upsert_update b now1 now2 =
     \<lparr>u_set = upsert_set b now1, u_setOnInsert = [(''createdAt'', JDate now2)]\<rparr>"

text \<open>
  The handler. The filter is \<open>{email}\<close>, whatever value the body gave; a filter value is
  compared as a value.
\<close>

definition upsert_contact :: "jsval option \<Rightarrow> int \<Rightarrow> int \<Rightarrow> store \<Rightarrow> response \<times> store" where
  "upsert_contact body now1 now2 s =
     (let b = body_or_empty body in
      case get_prop b ''email'' of
        None \<Rightarrow> (BadRequest ''email is required'', s)
      | Some email \<Rightarrow>
          (if \<not> truthy email then (BadRequest ''email is required'', s)
           else
             (let (r, s') = updateOne s [(''email'', email)] (upsert_update b now1 now2) True
              in (Success (OpRes
                    \<lparr>matched = matchedCount r, modified = modifiedCount r,
                     upsertedId = map_option oid_toString (r_upsertedId r)\<rparr>), s'))))"

subsection \<open>The server as a whole\<close>

datatype request =
    RunDemo int
  | ClearData
  | InsertSample int
  | ListContacts query
  | UpsertContact "jsval option" int int

fun handle :: "request \<Rightarrow> store \<Rightarrow> response \<times> store" where
  "handle (RunDemo now) s = run_demo now s"
| "handle ClearData s = clear_data s"
| "handle (InsertSample now) s = insert_sample now s"
| "handle (ListContacts q) s = list_contacts q s"
| "handle (UpsertContact body now1 now2) s = upsert_contact body now1 now2 s"

section \<open>Example states\<close>

text \<open>The states the script goes through when it starts on an empty collection.\<close>

definition demo_s1 :: store where
  "demo_s1 =
     \<lparr>docs = [\<lparr>d_id = 0,
                d_fields = [(''email'', JStr ''aarti@shade.org.in''), (''name'', JStr ''Aarti''),
                            (''city'', JStr ''Chennai'')]\<rparr>],
      next_id = 1\<rparr>"

definition demo_s2 :: store where
  "demo_s2 =
     \<lparr>docs = [\<lparr>d_id = 0,
                d_fields = [(''email'', JStr ''aarti@shade.org.in''), (''name'', JStr ''Aarti''),
                            (''city'', JStr ''Chennai (Adyar)'')]\<rparr>],
      next_id = 1\<rparr>"

definition demo_s4 :: "int \<Rightarrow> store" where
  "demo_s4 now =
     \<lparr>docs = [\<lparr>d_id = 0,
                d_fields = [(''email'', JStr ''aarti@shade.org.in''), (''name'', JStr ''Aarti''),
                            (''city'', JStr ''Chennai (Adyar)'')]\<rparr>,
              \<lparr>d_id = 1,
                d_fields = [(''email'', JStr ''missing@example.com''), (''city'', JStr ''Mumbai''),
                            (''createdAt'', JDate now), (''tags'', JArr [JStr ''Prospect''])]\<rparr>],
      next_id = 2\<rparr>"

text \<open>
  A later request for the contact that step C created, with other tags, and the
  collection after it (sent at time 2000 to the collection left by a run at time 1000).
\<close>

definition donor_body :: jsval where
  "donor_body =
     JObj [(''email'', JStr ''missing@example.com''), (''tags'', JArr [JStr ''Donor''])]"

definition demo_s5 :: store where
  "demo_s5 =
     \<lparr>docs = [\<lparr>d_id = 0,
                d_fields = [(''email'', JStr ''aarti@shade.org.in''), (''name'', JStr ''Aarti''),
                            (''city'', JStr ''Chennai (Adyar)'')]\<rparr>,
              \<lparr>d_id = 1,
                d_fields = [(''email'', JStr ''missing@example.com''), (''city'', JStr ''Mumbai''),
                            (''createdAt'', JDate 1000), (''tags'', JArr [JStr ''Donor'']),
                            (''updatedAt'', JDate 2000)]\<rparr>],
      next_id = 2\<rparr>"

text \<open>
  A request for the seeded contact with an empty name, an empty city and tags that are
  not an array, and the collection after it (sent at time 3000 to the collection left by
  a run at time 1000).
\<close>

definition blank_body :: jsval where
  "blank_body =
     JObj [(''email'', JStr ''aarti@shade.org.in''), (''name'', JStr []), (''city'', JStr []),
           (''tags'', JStr ''vip'')]"

definition demo_s6 :: store where
  "demo_s6 =
     \<lparr>docs = [\<lparr>d_id = 0,
                d_fields = [(''email'', JStr ''aarti@shade.org.in''), (''name'', JStr ''Aarti''),
                            (''city'', JStr ''Chennai (Adyar)''), (''updatedAt'', JDate 3000)]\<rparr>,
              \<lparr>d_id = 1,
                d_fields = [(''email'', JStr ''missing@example.com''), (''city'', JStr ''Mumbai''),
                            (''createdAt'', JDate 1000), (''tags'', JArr [JStr ''Prospect''])]\<rparr>],
      next_id = 2\<rparr>"

text \<open>Scenario 1 of the spec: an upsert of \<open>a@x.com\<close>.\<close>

definition scenario_filter :: fields where
  "scenario_filter = [(''email'', JStr ''a@x.com'')]"

definition scenario_update :: update where
  "scenario_update =
     \<lparr>u_set = [(''city'', JStr ''Mumbai'')],
      u_setOnInsert = [(''tags'', JArr [JStr ''Prospect''])]\<rparr>"

text \<open>The update of step A, as scenario 2 applies it.\<close>

definition adyar_update :: update where
  "adyar_update = \<lparr>u_set = [(''city'', JStr ''Chennai (Adyar)'')], u_setOnInsert = []\<rparr>"

text \<open>The collection after \<open>/insert-sample\<close> on an empty collection.\<close>

definition sample_s3 :: "int \<Rightarrow> store" where
  "sample_s3 now =
     \<lparr>docs = [\<lparr>d_id = 0,
                d_fields = [(''email'', JStr ''aarti@shade.org.in''), (''name'', JStr ''Aarti''),
                            (''city'', JStr ''Chennai''), (''tags'', JArr [JStr ''Volunteer'']),
                            (''createdAt'', JDate now)]\<rparr>,
              \<lparr>d_id = 1,
                d_fields = [(''email'', JStr ''rahul@example.com''), (''name'', JStr ''Rahul''),
                            (''city'', JStr ''Bengaluru''), (''tags'', JArr [JStr ''Donor'']),
                            (''createdAt'', JDate now)]\<rparr>,
              \<lparr>d_id = 2,
                d_fields = [(''email'', JStr ''latha@example.com''), (''name'', JStr ''Latha''),
                            (''city'', JStr ''Mumbai''), (''tags'', JArr [JStr ''Prospect'']),
                            (''createdAt'', JDate now)]\<rparr>],
      next_id = 3\<rparr>"

text \<open>A filter on the field that step A's update sets.\<close>

definition city_filter :: fields where
  "city_filter = [(''city'', JStr ''Chennai'')]"

section \<open>Properties of the store\<close>

subsection \<open>Finding the first match\<close>

lemma first_match_None: "(first_match f ds = None) = (\<not> list_ex (matches f) ds)"
  by (induction ds) (auto split: option.splits)

lemma first_match_Some:
  "first_match f ds = Some i \<Longrightarrow> i < length ds \<and> matches f (ds ! i) \<and> \<not> list_ex (matches f) (take i ds)"
proof (induction ds arbitrary: i)
  case Nil
  then show ?case by simp
next
  case (Cons d ds)
  show ?case
  proof (cases "matches f d")
    case True
    with Cons.prems show ?thesis by simp
  next
    case False
    with Cons.prems obtain j where j: "first_match f ds = Some j" "i = Suc j"
      by (auto split: option.splits)
    from Cons.IH[OF j(1)] False j(2) show ?thesis by simp
  qed
qed

lemma first_match_cong:
  "map (matches f) ds = map (matches f) ds' \<Longrightarrow> first_match f ds = first_match f ds'"
proof (induction ds arbitrary: ds')
  case Nil
  then show ?case by simp
next
  case (Cons d ds)
  then obtain e es where "ds' = e # es" by (cases ds') auto
  with Cons show ?case by auto
qed

subsection \<open>Setting fields\<close>

lemma map_of_set_field: "map_of (set_field k v d) = (map_of d)(k \<mapsto> v)"
  by (induction d) (auto simp: fun_eq_iff)

lemma map_of_set_fields_other:
  "k \<notin> fst ` set fs \<Longrightarrow> map_of (set_fields fs d) k = map_of d k"
  by (induction fs d rule: set_fields.induct) (auto simp: map_of_set_field)

lemma keys_set_field: "fst ` set (set_field k v d) = insert k (fst ` set d)"
  by (induction d) auto

lemma set_field_same: "set_field k v (set_field k w d) = set_field k v d"
  by (induction d) auto

lemma set_field_swap:
  "k \<in> fst ` set d \<Longrightarrow> k \<noteq> k' \<Longrightarrow>
   set_field k' v' (set_field k v d) = set_field k v (set_field k' v' d)"
  by (induction d) auto

lemma keys_set_fields: "fst ` set (set_fields fs d) = fst ` set fs \<union> fst ` set d"
  by (induction fs d rule: set_fields.induct) (auto simp: keys_set_field)

lemma set_fields_absorb:
  "k \<in> fst ` set fs \<Longrightarrow> k \<in> fst ` set d \<Longrightarrow>
   set_fields fs (set_field k v d) = set_fields fs d"
proof (induction fs d rule: set_fields.induct)
  case (1 d)
  then show ?case by simp
next
  case (2 k' v' fs d)
  show ?case
  proof (cases "k' = k")
    case True
    then show ?thesis by (simp add: set_field_same)
  next
    case False
    with "2.prems" have kfs: "k \<in> fst ` set fs" by auto
    have kd: "k \<in> fst ` set (set_field k' v' d)"
      using "2.prems"(2) by (simp add: keys_set_field)
    have "set_fields ((k', v') # fs) (set_field k v d)
          = set_fields fs (set_field k' v' (set_field k v d))" by simp
    also have "\<dots> = set_fields fs (set_field k v (set_field k' v' d))"
      using set_field_swap[OF "2.prems"(2), of k' v' v] False by simp
    also have "\<dots> = set_fields fs (set_field k' v' d)"
      using "2.IH"[OF kfs kd] .
    finally show ?thesis by simp
  qed
qed

lemma set_fields_commute:
  "k \<notin> fst ` set fs \<Longrightarrow> k \<in> fst ` set d \<Longrightarrow>
   set_fields fs (set_field k v d) = set_field k v (set_fields fs d)"
proof (induction fs d rule: set_fields.induct)
  case (1 d)
  then show ?case by simp
next
  case (2 k' v' fs d)
  from "2.prems" have ne: "k \<noteq> k'" and kfs: "k \<notin> fst ` set fs" by auto
  have kd: "k \<in> fst ` set (set_field k' v' d)"
    using "2.prems"(2) by (simp add: keys_set_field)
  have "set_fields ((k', v') # fs) (set_field k v d)
        = set_fields fs (set_field k v (set_field k' v' d))"
    using set_field_swap[OF "2.prems"(2), of k' v' v] ne by simp
  also have "\<dots> = set_field k v (set_fields fs (set_field k' v' d))"
    using "2.IH"[OF kfs kd] .
  finally show ?case by simp
qed

lemma set_fields_idem: "set_fields fs (set_fields fs d) = set_fields fs d"
proof (induction fs d rule: set_fields.induct)
  case (1 d)
  then show ?case by simp
next
  case (2 k v fs d)
  let ?e = "set_field k v d"
  have ke: "k \<in> fst ` set ?e" by (simp add: keys_set_field)
  have step: "set_fields fs (set_field k v (set_fields fs ?e)) = set_fields fs ?e"
  proof (cases "k \<in> fst ` set fs")
    case True
    have "k \<in> fst ` set (set_fields fs ?e)" using True by (simp add: keys_set_fields)
    from set_fields_absorb[OF True this] "2.IH" show ?thesis by simp
  next
    case False
    from set_fields_commute[OF False ke, of v] have
      "set_field k v (set_fields fs ?e) = set_fields fs (set_field k v ?e)" by simp
    then show ?thesis using "2.IH" by (simp add: set_field_same)
  qed
  then show ?case by simp
qed

subsection \<open>The outcomes of a write\<close>

lemma first_match_intro:
  "i < length ds \<Longrightarrow> matches f (ds ! i) \<Longrightarrow> \<not> list_ex (matches f) (take i ds) \<Longrightarrow>
   first_match f ds = Some i"
proof (induction ds arbitrary: i)
  case Nil
  then show ?case by simp
next
  case (Cons d ds)
  show ?case
  proof (cases i)
    case 0
    with Cons.prems show ?thesis by simp
  next
    case (Suc j)
    with Cons.prems have "j < length ds" "matches f (ds ! j)"
      "\<not> list_ex (matches f) (take j ds)" "\<not> matches f d" by auto
    with Cons.IH[of j] Suc show ?thesis by simp
  qed
qed

lemma count_zero_iff: "(countDocuments s f = 0) = (first_match f (docs s) = None)"
  by (simp add: countDocuments_def first_match_None list_ex_iff filter_empty_conv)

lemma updateOne_no_match:
  "first_match f (docs s) = None \<Longrightarrow>
   updateOne s f u False =
     (\<lparr>matchedCount = 0, modifiedCount = 0, upsertedCount = 0, r_upsertedId = None\<rparr>, s)"
  by (simp add: updateOne_def)

lemma updateOne_insert:
  "first_match f (docs s) = None \<Longrightarrow>
   updateOne s f u True =
     (\<lparr>matchedCount = 0, modifiedCount = 0, upsertedCount = 1, r_upsertedId = Some (next_id s)\<rparr>,
      \<lparr>docs = docs s @
         [\<lparr>d_id = next_id s,
           d_fields = set_fields (u_setOnInsert u) (set_fields (u_set u) f)\<rparr>],
       next_id = Suc (next_id s)\<rparr>)"
  by (simp add: updateOne_def)

lemma updateOne_match:
  "first_match f (docs s) = Some i \<Longrightarrow>
   updateOne s f u upsert =
     (\<lparr>matchedCount = 1,
       modifiedCount = (if set_fields (u_set u) (d_fields (docs s ! i)) = d_fields (docs s ! i) then 0 else 1),
       upsertedCount = 0, r_upsertedId = None\<rparr>,
      s\<lparr>docs := (docs s)[i := (docs s ! i)\<lparr>d_fields := set_fields (u_set u) (d_fields (docs s ! i))\<rparr>]\<rparr>)"
  by (simp add: updateOne_def Let_def)

subsection \<open>The script on the example states\<close>

lemma seed_empty:
  "demo_seed empty_store =
     (\<lparr>matchedCount = 0, modifiedCount = 0, upsertedCount = 1, r_upsertedId = Some 0\<rparr>, demo_s1)"
  by (simp add: demo_seed_def updateOne_def empty_store_def aarti_filter_def demo_s1_def)

lemma stepA_s1:
  "demo_stepA demo_s1 =
     (\<lparr>matchedCount = 1, modifiedCount = 1, upsertedCount = 0, r_upsertedId = None\<rparr>, demo_s2)"
  by (simp add: demo_stepA_def updateOne_def aarti_filter_def matches_def demo_s1_def demo_s2_def)

lemma stepB_s2:
  "demo_stepB demo_s2 =
     (\<lparr>matchedCount = 0, modifiedCount = 0, upsertedCount = 0, r_upsertedId = None\<rparr>, demo_s2)"
  by (simp add: demo_stepB_def updateOne_def missing_filter_def matches_def demo_s2_def)

lemma stepC_s2:
  "demo_stepC now demo_s2 =
     (\<lparr>matchedCount = 0, modifiedCount = 0, upsertedCount = 1, r_upsertedId = Some 1\<rparr>, demo_s4 now)"
  by (simp add: demo_stepC_def updateOne_def missing_filter_def matches_def demo_s2_def demo_s4_def)

lemma seed_s4:
  "demo_seed (demo_s4 t) =
     (\<lparr>matchedCount = 1, modifiedCount = 0, upsertedCount = 0, r_upsertedId = None\<rparr>, demo_s4 t)"
  by (simp add: demo_seed_def updateOne_def aarti_filter_def matches_def demo_s4_def)

lemma stepA_s4:
  "demo_stepA (demo_s4 t) =
     (\<lparr>matchedCount = 1, modifiedCount = 0, upsertedCount = 0, r_upsertedId = None\<rparr>, demo_s4 t)"
  by (simp add: demo_stepA_def updateOne_def aarti_filter_def matches_def demo_s4_def)

lemma stepB_s4:
  "demo_stepB (demo_s4 t) =
     (\<lparr>matchedCount = 1, modifiedCount = 0, upsertedCount = 0, r_upsertedId = None\<rparr>, demo_s4 t)"
  by (simp add: demo_stepB_def updateOne_def missing_filter_def matches_def demo_s4_def)

lemma stepC_s4:
  "demo_stepC now (demo_s4 t) =
     (\<lparr>matchedCount = 1, modifiedCount = 0, upsertedCount = 0, r_upsertedId = None\<rparr>, demo_s4 t)"
  by (simp add: demo_stepC_def updateOne_def missing_filter_def matches_def demo_s4_def)

lemma demo_first_run: "snd (runUpdateUpsertDemo t empty_store) = demo_s4 t"
  by (simp add: runUpdateUpsertDemo_def seed_empty stepA_s1 stepB_s2 stepC_s2)

subsection \<open>What a write leaves alone\<close>

lemma list_ex_map: "list_ex P xs = (True \<in> set (map P xs))"
  by (induction xs) auto

lemma matches_cong:
  "(\<And>k. k \<in> fst ` set g \<Longrightarrow> map_of (d_fields d') k = map_of (d_fields d) k) \<Longrightarrow>
   matches g d' = matches g d"
  unfolding matches_def list_all_iff
  by (metis (mono_tags, lifting) case_prod_beta image_eqI)

lemma matches_set_fields:
  assumes "fst ` set fs \<inter> fst ` set g = {}"
  shows "matches g (d\<lparr>d_fields := set_fields fs (d_fields d)\<rparr>) = matches g d"
proof (rule matches_cong)
  fix k assume "k \<in> fst ` set g"
  with assms have "k \<notin> fst ` set fs" by blast
  then show "map_of (d_fields (d\<lparr>d_fields := set_fields fs (d_fields d)\<rparr>)) k = map_of (d_fields d) k"
    by (simp add: map_of_set_fields_other)
qed

lemma updateOne_docs_match:
  "first_match f (docs s) = Some i \<Longrightarrow>
   docs (snd (updateOne s f u b)) =
     (docs s)[i := (docs s ! i)\<lparr>d_fields := set_fields (u_set u) (d_fields (docs s ! i))\<rparr>]"
  by (simp add: updateOne_match)

lemma updateOne_matches_map:
  assumes "first_match f (docs s) = Some i" and "fst ` set (u_set u) \<inter> fst ` set g = {}"
  shows "map (matches g) (docs (snd (updateOne s f u b))) = map (matches g) (docs s)"
proof -
  from first_match_Some[OF assms(1)] have i: "i < length (docs s)" by simp
  show ?thesis
    unfolding updateOne_docs_match[OF assms(1)]
    by (simp add: map_update matches_set_fields[OF assms(2)] list_update_same_conv i)
qed

lemma seed_keeps_missing:
  "list_ex (matches missing_filter) (docs (snd (demo_seed s))) =
   list_ex (matches missing_filter) (docs s)"
proof (cases "first_match aarti_filter (docs s)")
  case None
  then show ?thesis
    by (simp add: demo_seed_def updateOne_insert matches_def missing_filter_def aarti_filter_def)
next
  case (Some i)
  have "map (matches missing_filter) (docs (snd (demo_seed s))) = map (matches missing_filter) (docs s)"
    unfolding demo_seed_def by (rule updateOne_matches_map[OF Some]) simp
  then show ?thesis by (simp add: list_ex_map)
qed

lemma stepA_keeps_missing:
  "list_ex (matches missing_filter) (docs (snd (demo_stepA s))) =
   list_ex (matches missing_filter) (docs s)"
proof (cases "first_match aarti_filter (docs s)")
  case None
  then show ?thesis by (simp add: demo_stepA_def updateOne_no_match)
next
  case (Some i)
  have "map (matches missing_filter) (docs (snd (demo_stepA s))) = map (matches missing_filter) (docs s)"
    unfolding demo_stepA_def by (rule updateOne_matches_map[OF Some]) (simp add: missing_filter_def)
  then show ?thesis by (simp add: list_ex_map)
qed

lemma stepB_report:
  "updateMissingNoUpsert (fst (runUpdateUpsertDemo now s)) =
     normalize (fst (demo_stepB (snd (demo_stepA (snd (demo_seed s))))))"
  by (simp add: runUpdateUpsertDemo_def split_beta)

lemma stepB_result:
  "normalize (fst (demo_stepB s)) =
     (if countDocuments s missing_filter = 0
      then \<lparr>matched = 0, modified = 0, upsertedId = None\<rparr>
      else \<lparr>matched = 1, modified = modifiedCount (fst (demo_stepB s)), upsertedId = None\<rparr>)"
proof (cases "first_match missing_filter (docs s)")
  case None
  then show ?thesis
    by (simp add: count_zero_iff demo_stepB_def updateOne_no_match normalize_def)
next
  case (Some i)
  then show ?thesis
    by (simp add: count_zero_iff demo_stepB_def updateOne_match normalize_def)
qed

lemma count_after_seed_stepA:
  "(countDocuments (snd (demo_stepA (snd (demo_seed s)))) missing_filter = 0) =
   (countDocuments s missing_filter = 0)"
  by (simp add: count_zero_iff first_match_None stepA_keeps_missing seed_keeps_missing)

subsection \<open>Fields that a request keeps\<close>

lemma keeps_refl: "keeps k s s"
  by (simp add: keeps_def)

lemma keeps_length: "keeps k s s' \<Longrightarrow> length (docs s) \<le> length (docs s')"
proof -
  assume "keeps k s s'"
  then have "length (take (length (docs s)) (docs s')) = length (docs s)"
    unfolding keeps_def by (metis length_map)
  then show ?thesis by simp
qed

lemma keeps_trans:
  assumes "keeps k s s'" and "keeps k s' s''"
  shows "keeps k s s''"
proof -
  let ?g = "\<lambda>d. (d_id d, field_of k d)"
  let ?n = "length (docs s)"
  from keeps_length[OF assms(1)] have le: "?n \<le> length (docs s')" .
  have "map ?g (take ?n (docs s'')) = take ?n (map ?g (take (length (docs s')) (docs s'')))"
    using le by (simp add: take_map min_def)
  also have "\<dots> = take ?n (map ?g (docs s'))"
    using assms(2) by (simp add: keeps_def)
  also have "\<dots> = map ?g (docs s)"
    using assms(1) by (simp add: keeps_def take_map)
  finally show ?thesis by (simp add: keeps_def)
qed

lemma field_of_set_fields_other:
  "k \<notin> fst ` set fs \<Longrightarrow> field_of k (d\<lparr>d_fields := set_fields fs (d_fields d)\<rparr>) = field_of k d"
  by (simp add: field_of_def map_of_set_fields_other)

lemma updateOne_keeps:
  assumes "k \<notin> fst ` set (u_set u)"
  shows "keeps k s (snd (updateOne s f u b))"
proof (cases "first_match f (docs s)")
  case None
  then show ?thesis
    by (cases b) (simp_all add: updateOne_insert updateOne_no_match keeps_def)
next
  case (Some i)
  from first_match_Some[OF Some] have i: "i < length (docs s)" by simp
  show ?thesis
    unfolding keeps_def updateOne_docs_match[OF Some]
    by (simp add: map_update field_of_set_fields_other[OF assms] list_update_same_conv i)
qed

lemma bulkWrite_keeps:
  "list_all (\<lambda>(f, u). k \<notin> fst ` set (u_set u)) ops \<Longrightarrow> keeps k s (snd (bulkWrite s ops))"
proof (induction ops arbitrary: s)
  case Nil
  then show ?case by (simp add: keeps_refl)
next
  case (Cons op ops)
  obtain f u where op: "op = (f, u)" by (cases op)
  from Cons.prems op have k: "k \<notin> fst ` set (u_set u)"
    and rest: "list_all (\<lambda>(f, u). k \<notin> fst ` set (u_set u)) ops" by simp_all
  have "keeps k s (snd (updateOne s f u True))" by (rule updateOne_keeps[OF k])
  moreover have "keeps k (snd (updateOne s f u True)) (snd (bulkWrite (snd (updateOne s f u True)) ops))"
    by (rule Cons.IH[OF rest])
  ultimately have "keeps k s (snd (bulkWrite (snd (updateOne s f u True)) ops))"
    by (rule keeps_trans)
  then show ?case by (simp add: op split_beta)
qed

lemma insert_sample_keeps: "keeps k s (snd (insert_sample now s))"
proof -
  have "keeps k s (snd (bulkWrite s (sample_ops now)))"
    by (rule bulkWrite_keeps) (simp add: sample_ops_def sample_op_def)
  then show ?thesis by (simp add: insert_sample_def split_beta)
qed

lemma demo_keeps:
  assumes "k \<noteq> ''city''"
  shows "keeps k s (snd (runUpdateUpsertDemo now s))"
proof -
  let ?s1 = "snd (demo_seed s)"
  let ?s2 = "snd (demo_stepA ?s1)"
  let ?s3 = "snd (demo_stepB ?s2)"
  let ?s4 = "snd (demo_stepC now ?s3)"
  have 1: "keeps k s ?s1" unfolding demo_seed_def by (rule updateOne_keeps) simp
  have 2: "keeps k ?s1 ?s2" unfolding demo_stepA_def by (rule updateOne_keeps) (simp add: assms)
  have 3: "keeps k ?s2 ?s3" unfolding demo_stepB_def by (rule updateOne_keeps) (simp add: assms)
  have 4: "keeps k ?s3 ?s4" unfolding demo_stepC_def by (rule updateOne_keeps) (simp add: assms)
  have "snd (runUpdateUpsertDemo now s) = ?s4"
    by (simp add: runUpdateUpsertDemo_def split_beta)
  with keeps_trans[OF keeps_trans[OF keeps_trans[OF 1 2] 3] 4] show ?thesis by simp
qed

lemma keys_spread_if: "fst ` set (spread_if c k v) \<subseteq> {k}"
  by (cases v) auto

lemma keys_upsert_set:
  "fst ` set (upsert_set b now) \<subseteq> {''name'', ''city'', ''tags'', ''updatedAt''}"
  unfolding upsert_set_def using keys_spread_if by fastforce

subsection \<open>The upsert-contact handler\<close>

lemma upsert_contact_rejected:
  "\<not> truthy_opt (get_prop (body_or_empty body) ''email'') \<Longrightarrow>
   upsert_contact body now1 now2 s = (BadRequest ''email is required'', s)"
  by (cases "get_prop (body_or_empty body) ''email''") (simp_all add: upsert_contact_def)

lemma upsert_contact_served:
  "get_prop (body_or_empty body) ''email'' = Some e \<Longrightarrow> truthy e \<Longrightarrow>
   upsert_contact body now1 now2 s =
     (Success (OpRes (normalize (fst (updateOne s [(''email'', e)]
                                      (upsert_update (body_or_empty body) now1 now2) True)))),
      snd (updateOne s [(''email'', e)] (upsert_update (body_or_empty body) now1 now2) True))"
  by (simp add: upsert_contact_def Let_def split_beta normalize_def)

lemma upsert_contact_keeps:
  assumes "k \<notin> fst ` set (upsert_set (body_or_empty body) now1)"
  shows "keeps k s (snd (upsert_contact body now1 now2 s))"
proof (cases "truthy_opt (get_prop (body_or_empty body) ''email'')")
  case False
  then show ?thesis by (simp add: upsert_contact_rejected keeps_refl)
next
  case True
  then obtain e where e: "get_prop (body_or_empty body) ''email'' = Some e" "truthy e"
    by (cases "get_prop (body_or_empty body) ''email''") simp_all
  show ?thesis
    unfolding upsert_contact_served[OF e] snd_conv
    by (rule updateOne_keeps) (simp add: upsert_update_def assms)
qed

lemma createdAt_not_set: "''createdAt'' \<notin> fst ` set (upsert_set b now)"
  using keys_upsert_set[of b now] by auto

lemma email_not_set: "''email'' \<notin> fst ` set (upsert_set b now)"
  using keys_upsert_set[of b now] by auto

lemma handle_keeps_createdAt:
  "req \<noteq> ClearData \<Longrightarrow> keeps ''createdAt'' s (snd (handle req s))"
proof (cases req)
  case (RunDemo now)
  then show ?thesis by (simp add: run_demo_def split_beta demo_keeps)
next
  case ClearData
  assume "req \<noteq> ClearData"
  with ClearData show ?thesis by simp
next
  case (InsertSample now)
  then show ?thesis by (simp add: insert_sample_keeps)
next
  case (ListContacts q)
  then show ?thesis
    by (simp add: list_contacts_def keeps_refl split: prod.splits jsnum.splits)
next
  case (UpsertContact body now1 now2)
  then show ?thesis by (simp add: upsert_contact_keeps createdAt_not_set)
qed

lemma map_of_set_fields: "map_of (set_fields fs d) = map_of d ++ map_of (rev fs)"
proof (induction fs d rule: set_fields.induct)
  case (1 d)
  then show ?case by simp
next
  case (2 k v fs d)
  have "map_of (set_fields ((k, v) # fs) d) = (map_of d)(k \<mapsto> v) ++ map_of (rev fs)"
    by (simp only: set_fields.simps "2.IH" map_of_set_field)
  also have "\<dots> = map_of d ++ map_of (rev ((k, v) # fs))"
    by (auto simp: fun_eq_iff map_add_def split: option.splits)
  finally show ?case .
qed

lemma map_of_set_fields_last: "map_of (set_fields (fs @ [(k, v)]) d) k = Some v"
  by (simp add: map_of_set_fields)

lemma updatedAt_set:
  "map_of (set_fields (upsert_set b now) d) ''updatedAt'' = Some (JDate now)"
  unfolding upsert_set_def by (simp only: append_assoc[symmetric] map_of_set_fields_last)

lemma value_matches_refl: "value_matches (Some v) v"
  by (cases v) simp_all

lemma first_match_append_new:
  "first_match f ds = None \<Longrightarrow> matches f d \<Longrightarrow> first_match f (ds @ [d]) = Some (length ds)"
  by (induction ds) (auto split: option.splits if_splits)

text \<open>After a write by the handler, the contact that the email selects.\<close>

lemma upsert_contact_target:
  assumes e: "get_prop (body_or_empty body) ''email'' = Some e" "truthy e"
  shows "\<exists>d. find_one (snd (upsert_contact body now1 now2 s)) [(''email'', e)] = Some d \<and>
             field_of ''updatedAt'' d = Some (JDate now1) \<and>
             (first_match [(''email'', e)] (docs s) = None \<longrightarrow>
                d = last (docs (snd (upsert_contact body now1 now2 s))) \<and>
                field_of ''createdAt'' d = Some (JDate now2))"
proof (cases "first_match [(''email'', e)] (docs s)")
  case None
  let ?b = "body_or_empty body"
  let ?new = "\<lparr>d_id = next_id s,
     d_fields = set_fields [(''createdAt'', JDate now2)] (set_fields (upsert_set ?b now1) [(''email'', e)])\<rparr>"
  have docs': "docs (snd (upsert_contact body now1 now2 s)) = docs s @ [?new]"
    unfolding upsert_contact_served[OF e] by (simp add: updateOne_insert[OF None] upsert_update_def)
  have "map_of (d_fields ?new) ''email'' = Some e"
    by (simp add: map_of_set_field map_of_set_fields_other[OF email_not_set])
  then have m: "matches [(''email'', e)] ?new"
    by (simp add: matches_def value_matches_refl)
  have fm: "first_match [(''email'', e)] (docs s @ [?new]) = Some (length (docs s))"
    by (rule first_match_append_new[OF None m])
  have "find_one (snd (upsert_contact body now1 now2 s)) [(''email'', e)] = Some ?new"
    using fm by (simp add: find_one_def docs')
  moreover have "field_of ''updatedAt'' ?new = Some (JDate now1)"
    by (simp add: field_of_def map_of_set_field updatedAt_set)
  moreover have "field_of ''createdAt'' ?new = Some (JDate now2)"
    by (simp add: field_of_def map_of_set_field)
  ultimately show ?thesis by (simp add: docs')
next
  case (Some i)
  let ?b = "body_or_empty body"
  let ?u = "upsert_update ?b now1 now2"
  let ?d' = "(docs s ! i)\<lparr>d_fields := set_fields (u_set ?u) (d_fields (docs s ! i))\<rparr>"
  from first_match_Some[OF Some] have i: "i < length (docs s)" by simp
  have s': "snd (upsert_contact body now1 now2 s) = snd (updateOne s [(''email'', e)] ?u True)"
    unfolding upsert_contact_served[OF e] by simp
  have "map (matches [(''email'', e)]) (docs (snd (updateOne s [(''email'', e)] ?u True)))
        = map (matches [(''email'', e)]) (docs s)"
    by (rule updateOne_matches_map[OF Some]) (simp add: upsert_update_def email_not_set)
  then have "first_match [(''email'', e)] (docs (snd (updateOne s [(''email'', e)] ?u True))) = Some i"
    using first_match_cong Some by metis
  then have "find_one (snd (upsert_contact body now1 now2 s)) [(''email'', e)] = Some ?d'"
    unfolding s' by (simp add: find_one_def updateOne_docs_match[OF Some] i)
  moreover have "field_of ''updatedAt'' ?d' = Some (JDate now1)"
    by (simp add: field_of_def upsert_update_def updatedAt_set)
  ultimately show ?thesis using Some by simp
qed

subsection \<open>The documents a request creates\<close>

lemma new_docs_refl: "new_docs s s = []"
  by (simp add: new_docs_def)

lemma updateOne_new_docs:
  "new_docs s (snd (updateOne s f u b)) =
     (if first_match f (docs s) = None \<and> b
      then [\<lparr>d_id = next_id s,
             d_fields = set_fields (u_setOnInsert u) (set_fields (u_set u) f)\<rparr>]
      else [])"
proof (cases "first_match f (docs s)")
  case None
  then show ?thesis
    by (cases b) (simp_all add: updateOne_insert updateOne_no_match new_docs_def)
next
  case (Some i)
  then show ?thesis by (simp add: updateOne_docs_match new_docs_def)
qed

lemma new_docs_trans:
  assumes k1: "keeps k s s'" and k2: "keeps k s' s''"
    and n1: "list_all (\<lambda>d. field_of k d = w) (new_docs s s')"
    and n2: "list_all (\<lambda>d. field_of k d = w) (new_docs s' s'')"
  shows "list_all (\<lambda>d. field_of k d = w) (new_docs s s'')"
proof -
  let ?n = "length (docs s)" and ?n' = "length (docs s')"
  from keeps_length[OF k1] have le: "?n \<le> ?n'" .
  have fields: "map (field_of k) (take ?n' (docs s'')) = map (field_of k) (docs s')"
  proof -
    from k2 have "map snd (map (\<lambda>d. (d_id d, field_of k d)) (take ?n' (docs s'')))
        = map snd (map (\<lambda>d. (d_id d, field_of k d)) (docs s'))"
      unfolding keeps_def by simp
    then show ?thesis by (simp add: comp_def)
  qed
  from keeps_length[OF k2] have le': "?n' \<le> length (docs s'')" .
  have "drop ?n (take ?n' (docs s'') @ drop ?n' (docs s'')) =
        drop ?n (take ?n' (docs s'')) @ drop (?n - length (take ?n' (docs s''))) (drop ?n' (docs s''))"
    by (rule drop_append)
  then have split: "drop ?n (docs s'') = drop ?n (take ?n' (docs s'')) @ drop ?n' (docs s'')"
    using le le' by (simp add: min_def)
  have "map (field_of k) (drop ?n (take ?n' (docs s''))) = map (field_of k) (drop ?n (docs s'))"
    using fields by (simp add: drop_map[symmetric])
  then have "list_all (\<lambda>v. v = w) (map (field_of k) (drop ?n (take ?n' (docs s'')))) =
             list_all (\<lambda>v. v = w) (map (field_of k) (drop ?n (docs s')))" by simp
  then have first: "list_all (\<lambda>d. field_of k d = w) (drop ?n (take ?n' (docs s'')))"
    using n1 by (simp add: list_all_iff new_docs_def)
  show ?thesis
    unfolding new_docs_def split using first n2 by (simp add: new_docs_def)
qed

lemma map_of_new_doc_other:
  "k \<notin> fst ` set su \<Longrightarrow> k \<notin> fst ` set soi \<Longrightarrow>
   map_of (set_fields soi (set_fields su f)) k = map_of f k"
  by (simp add: map_of_set_fields_other)

lemma updateOne_new_docs_field:
  assumes "map_of (set_fields (u_setOnInsert u) (set_fields (u_set u) f)) k = w"
  shows "list_all (\<lambda>d. field_of k d = w) (new_docs s (snd (updateOne s f u b)))"
  using assms by (simp add: updateOne_new_docs field_of_def)

lemma bulkWrite_new_docs:
  "list_all (\<lambda>(f, u). k \<notin> fst ` set (u_set u) \<and>
             map_of (set_fields (u_setOnInsert u) (set_fields (u_set u) f)) k = w) ops \<Longrightarrow>
   list_all (\<lambda>d. field_of k d = w) (new_docs s (snd (bulkWrite s ops)))"
proof (induction ops arbitrary: s)
  case Nil
  then show ?case by (simp add: new_docs_refl)
next
  case (Cons op ops)
  obtain f u where op: "op = (f, u)" by (cases op)
  let ?s1 = "snd (updateOne s f u True)"
  from Cons.prems op have k: "k \<notin> fst ` set (u_set u)"
    and p: "map_of (set_fields (u_setOnInsert u) (set_fields (u_set u) f)) k = w"
    and rest: "list_all (\<lambda>(f, u). k \<notin> fst ` set (u_set u) \<and>
             map_of (set_fields (u_setOnInsert u) (set_fields (u_set u) f)) k = w) ops"
    by simp_all
  have rest': "list_all (\<lambda>(f, u). k \<notin> fst ` set (u_set u)) ops"
    using rest by (auto simp: list_all_iff)
  have "list_all (\<lambda>d. field_of k d = w) (new_docs s (snd (bulkWrite ?s1 ops)))"
    by (rule new_docs_trans[OF updateOne_keeps[OF k] bulkWrite_keeps[OF rest']
          updateOne_new_docs_field[OF p] Cons.IH[OF rest]])
  then show ?case by (simp add: op split_beta)
qed

lemma insert_sample_new_docs:
  "list_all (\<lambda>d. field_of ''createdAt'' d = Some (JDate now))
     (new_docs s (snd (insert_sample now s)))"
proof -
  have "list_all (\<lambda>d. field_of ''createdAt'' d = Some (JDate now))
      (new_docs s (snd (bulkWrite s (sample_ops now))))"
    by (rule bulkWrite_new_docs) (simp add: sample_ops_def sample_op_def)
  then show ?thesis by (simp add: insert_sample_def split_beta)
qed

lemma insert_sample_no_updatedAt:
  "list_all (\<lambda>d. field_of ''updatedAt'' d = None) (new_docs s (snd (insert_sample now s)))"
proof -
  have "list_all (\<lambda>d. field_of ''updatedAt'' d = None)
      (new_docs s (snd (bulkWrite s (sample_ops now))))"
    by (rule bulkWrite_new_docs) (simp add: sample_ops_def sample_op_def)
  then show ?thesis by (simp add: insert_sample_def split_beta)
qed

lemma stepC_new_docs:
  "list_all (\<lambda>d. field_of ''createdAt'' d = Some (JDate now)) (new_docs s (snd (demo_stepC now s)))"
  unfolding demo_stepC_def
  by (rule updateOne_new_docs_field) (simp add: missing_filter_def)

lemma stepC_creates:
  "countDocuments s missing_filter = 0 \<Longrightarrow> length (new_docs s (snd (demo_stepC now s))) = 1"
  by (simp add: demo_stepC_def updateOne_new_docs count_zero_iff)

lemma demo_no_updatedAt:
  "list_all (\<lambda>d. field_of ''updatedAt'' d = None) (new_docs s (snd (runUpdateUpsertDemo now s)))"
proof -
  let ?k = "''updatedAt''"
  let ?s1 = "snd (demo_seed s)"
  let ?s2 = "snd (demo_stepA ?s1)"
  let ?s3 = "snd (demo_stepB ?s2)"
  let ?s4 = "snd (demo_stepC now ?s3)"
  have k1: "keeps ?k s ?s1" unfolding demo_seed_def by (rule updateOne_keeps) simp
  have k2: "keeps ?k ?s1 ?s2" unfolding demo_stepA_def by (rule updateOne_keeps) simp
  have k3: "keeps ?k ?s2 ?s3" unfolding demo_stepB_def by (rule updateOne_keeps) simp
  have k4: "keeps ?k ?s3 ?s4" unfolding demo_stepC_def by (rule updateOne_keeps) simp
  have n1: "list_all (\<lambda>d. field_of ?k d = None) (new_docs s ?s1)"
    unfolding demo_seed_def by (rule updateOne_new_docs_field) (simp add: aarti_filter_def)
  have n2: "list_all (\<lambda>d. field_of ?k d = None) (new_docs ?s1 ?s2)"
    unfolding demo_stepA_def by (rule updateOne_new_docs_field) (simp add: aarti_filter_def)
  have n3: "list_all (\<lambda>d. field_of ?k d = None) (new_docs ?s2 ?s3)"
    unfolding demo_stepB_def by (rule updateOne_new_docs_field) (simp add: missing_filter_def)
  have n4: "list_all (\<lambda>d. field_of ?k d = None) (new_docs ?s3 ?s4)"
    unfolding demo_stepC_def by (rule updateOne_new_docs_field) (simp add: missing_filter_def)
  have k12: "keeps ?k s ?s2" by (rule keeps_trans[OF k1 k2])
  have k123: "keeps ?k s ?s3" by (rule keeps_trans[OF k12 k3])
  have n12: "list_all (\<lambda>d. field_of ?k d = None) (new_docs s ?s2)"
    by (rule new_docs_trans[OF k1 k2 n1 n2])
  have n123: "list_all (\<lambda>d. field_of ?k d = None) (new_docs s ?s3)"
    by (rule new_docs_trans[OF k12 k3 n12 n3])
  have n1234: "list_all (\<lambda>d. field_of ?k d = None) (new_docs s ?s4)"
    by (rule new_docs_trans[OF k123 k4 n123 n4])
  have "snd (runUpdateUpsertDemo now s) = ?s4"
    by (simp add: runUpdateUpsertDemo_def split_beta)
  with n1234 show ?thesis by simp
qed

lemma insert_only_assigned:
  assumes "first_match f (docs s) = None" and "(k, v) \<in> set (u_setOnInsert u)"
    and "distinct (map fst (u_setOnInsert u))"
  shows "new_docs s (snd (updateOne s f u True)) =
           [\<lparr>d_id = next_id s,
             d_fields = set_fields (u_setOnInsert u) (set_fields (u_set u) f)\<rparr>] \<and>
         field_of k (last (docs (snd (updateOne s f u True)))) = Some v"
proof -
  have "distinct (map fst (rev (u_setOnInsert u)))"
    using assms(3) by (simp add: rev_map[symmetric])
  moreover have "(k, v) \<in> set (rev (u_setOnInsert u))" using assms(2) by simp
  ultimately have "map_of (rev (u_setOnInsert u)) k = Some v" by (rule map_of_is_SomeI)
  then have "map_of (set_fields (u_setOnInsert u) (set_fields (u_set u) f)) k = Some v"
    by (simp add: map_of_set_fields)
  then have "field_of k (last (docs (snd (updateOne s f u True)))) = Some v"
    using assms(1) by (simp add: updateOne_insert field_of_def)
  moreover have "new_docs s (snd (updateOne s f u True)) =
           [\<lparr>d_id = next_id s,
             d_fields = set_fields (u_setOnInsert u) (set_fields (u_set u) f)\<rparr>]"
    using assms(1) by (simp add: updateOne_new_docs)
  ultimately show ?thesis by simp
qed

subsection \<open>Facts about the example states\<close>

lemma count_demo_s2_missing: "countDocuments demo_s2 missing_filter = 0"
  by (simp add: countDocuments_def demo_s2_def missing_filter_def matches_def)

lemma count_empty: "countDocuments empty_store f = 0"
  by (simp add: countDocuments_def empty_store_def)

lemma count_demo_s1_aarti: "countDocuments demo_s1 aarti_filter = 1"
  by (simp add: countDocuments_def demo_s1_def aarti_filter_def matches_def)

lemma first_match_demo_s1: "first_match aarti_filter (docs demo_s1) = Some 0"
  by (simp add: demo_s1_def aarti_filter_def matches_def)

lemma still_matches_demo_s1:
  "matches aarti_filter
     ((docs demo_s1 ! 0)\<lparr>d_fields := set_fields (u_set adyar_update) (d_fields (docs demo_s1 ! 0))\<rparr>)"
  by (simp add: demo_s1_def aarti_filter_def matches_def adyar_update_def)

lemma upsert_donor_s4:
  "upsert_contact (Some donor_body) 2000 2001 (demo_s4 1000) =
     (Success (OpRes \<lparr>matched = 1, modified = 1, upsertedId = None\<rparr>), demo_s5)"
  by (simp add: upsert_contact_def donor_body_def upsert_update_def upsert_set_def updateOne_def matches_def
      demo_s4_def demo_s5_def)

lemma stepA_first_run:
  "updateExisting (fst (runUpdateUpsertDemo t empty_store)) = \<lparr>matched = 1, modified = 1, upsertedId = None\<rparr>"
  by (simp add: runUpdateUpsertDemo_def seed_empty stepA_s1 stepB_s2 stepC_s2 normalize_def)

lemma upsert_blank_s4:
  "upsert_contact (Some blank_body) 3000 3001 (demo_s4 1000) =
     (Success (OpRes \<lparr>matched = 1, modified = 1, upsertedId = None\<rparr>), demo_s6)"
  by (simp add: upsert_contact_def blank_body_def upsert_update_def upsert_set_def updateOne_def
      matches_def demo_s4_def demo_s6_def)

lemma blank_body_fields:
  "get_prop (body_or_empty (Some blank_body)) ''email'' = Some (JStr ''aarti@shade.org.in'')"
  "\<not> truthy_opt (get_prop (body_or_empty (Some blank_body)) ''name'')"
  "\<not> truthy_opt (get_prop (body_or_empty (Some blank_body)) ''city'')"
  "\<not> isArray (get_prop (body_or_empty (Some blank_body)) ''tags'')"
  by (simp_all add: blank_body_def)

lemma donor_body_email:
  "get_prop (body_or_empty (Some donor_body)) ''email'' = Some (JStr ''missing@example.com'')"
  by (simp add: donor_body_def)

lemma find_missing_s5:
  "find_one demo_s5 [(''email'', JStr ''missing@example.com'')] = Some (docs demo_s5 ! 1)"
  by (simp add: find_one_def demo_s5_def matches_def)

lemma find_aarti_s6:
  "find_one demo_s6 [(''email'', JStr ''aarti@shade.org.in'')] = Some (docs demo_s6 ! 0)"
  by (simp add: find_one_def demo_s6_def matches_def)

lemma upsert_new_contact:
  "upsert_contact (Some (JObj [(''email'', JStr ''a@x.com'')])) 2000 2001 empty_store =
     (Success (OpRes \<lparr>matched = 0, modified = 0, upsertedId = Some (oid_toString 0)\<rparr>),
      \<lparr>docs = [\<lparr>d_id = 0, d_fields = [(''email'', JStr ''a@x.com''), (''updatedAt'', JDate 2000),
                                      (''createdAt'', JDate 2001)]\<rparr>],
       next_id = 1\<rparr>)"
  by (simp add: upsert_contact_def upsert_update_def upsert_set_def updateOne_def empty_store_def)

subsection \<open>Page and page size of a listing\<close>

lemma list_page_clamped:
  "parseInt (or_default (q_page q) ''1'') = Num n \<Longrightarrow> list_page q = Num (max 1 n)"
  by (simp add: list_page_def)

lemma list_pageSize_clamped:
  "parseInt (or_default (q_pageSize q) ''10'') = Num n \<Longrightarrow>
   list_pageSize q = Num (min 100 (max 1 n))"
  by (simp add: list_pageSize_def)

lemma list_page_missing:
  "q_page q = None \<Longrightarrow> list_page q = Num 1"
  by (simp add: list_page_def parseInt_def parse_digits_def is_ws_def is_digit_def digits_value_def)

lemma list_pageSize_missing:
  "q_pageSize q = None \<Longrightarrow> list_pageSize q = Num 10"
  by (simp add: list_pageSize_def parseInt_def parse_digits_def is_ws_def is_digit_def digits_value_def)

lemma insert_sample_empty: "snd (insert_sample now empty_store) = sample_s3 now"
proof -
  let ?a = "sample_op now ''aarti@shade.org.in'' ''Aarti'' ''Chennai'' ''Volunteer''"
  let ?r = "sample_op now ''rahul@example.com'' ''Rahul'' ''Bengaluru'' ''Donor''"
  let ?l = "sample_op now ''latha@example.com'' ''Latha'' ''Mumbai'' ''Prospect''"
  let ?s1 = "\<lparr>docs = [docs (sample_s3 now) ! 0], next_id = 1\<rparr>"
  let ?s2 = "\<lparr>docs = [docs (sample_s3 now) ! 0, docs (sample_s3 now) ! 1], next_id = 2\<rparr>"
  have 1: "snd (updateOne empty_store (fst ?a) (snd ?a) True) = ?s1"
    by (simp add: updateOne_def sample_op_def empty_store_def sample_s3_def)
  have 2: "snd (updateOne ?s1 (fst ?r) (snd ?r) True) = ?s2"
    by (simp add: updateOne_def sample_op_def sample_s3_def matches_def)
  have 3: "snd (updateOne ?s2 (fst ?l) (snd ?l) True) = sample_s3 now"
    by (simp add: updateOne_def sample_op_def sample_s3_def matches_def)
  have "snd (bulkWrite empty_store [?a, ?r, ?l]) =
        snd (updateOne (snd (updateOne (snd (updateOne empty_store (fst ?a) (snd ?a) True))
                               (fst ?r) (snd ?r) True)) (fst ?l) (snd ?l) True)"
    by (simp add: split_beta sample_op_def)
  then show ?thesis
    unfolding 1 2 3 by (simp add: insert_sample_def sample_ops_def split_beta)
qed

section \<open>The claims\<close>

text \<open>
  Claim C1, as the script behaves. Step B never reports an \<open>upsertedId\<close>. It reports
  \<open>matched = 0, modified = 0\<close> exactly when the run starts on a collection in which no
  contact matches \<open>missing@example.com\<close>; in every other run it reports \<open>matched = 1\<close>.
\<close>

theorem demo_stepB_reports:
  "upsertedId (updateMissingNoUpsert (fst (runUpdateUpsertDemo now s))) = None \<and>
   matched (updateMissingNoUpsert (fst (runUpdateUpsertDemo now s))) =
     (if countDocuments s missing_filter = 0 then 0 else 1) \<and>
   ((updateMissingNoUpsert (fst (runUpdateUpsertDemo now s)) =
       \<lparr>matched = 0, modified = 0, upsertedId = None\<rparr>) =
    (countDocuments s missing_filter = 0))"
  unfolding stepB_report
  by (subst (1 2 3) stepB_result) (simp add: count_after_seed_stepA)

text \<open>
  The second run against the same collection: step C of the first run has created
  \<open>missing@example.com\<close>, so step B of the second run finds it.
\<close>

theorem demo_stepB_second_run:
  "updateMissingNoUpsert
     (fst (runUpdateUpsertDemo 2000 (snd (runUpdateUpsertDemo 1000 empty_store)))) =
   \<lparr>matched = 1, modified = 0, upsertedId = None\<rparr>"
  unfolding demo_first_run
  by (simp add: runUpdateUpsertDemo_def seed_s4 stepA_s4 stepB_s4 stepC_s4 normalize_def)

text \<open>
  Claim C2. An upsert returns an \<open>upsertedId\<close> exactly when it added a document. When its
  filter matches no document the collection grows by exactly one document and the
  \<open>upsertedId\<close> is present; when the filter matches at least one document the
  \<open>upsertedId\<close> is absent and the number of documents stays.
\<close>

theorem upsert_id_iff_insert:
  "((upsertedId (normalize (fst (updateOne s f u True))) \<noteq> None) =
      (length (docs (snd (updateOne s f u True))) = length (docs s) + 1)) \<and>
   (countDocuments s f = 0 \<longrightarrow>
      length (docs (snd (updateOne s f u True))) = length (docs s) + 1 \<and>
      upsertedId (normalize (fst (updateOne s f u True))) \<noteq> None) \<and>
   (0 < countDocuments s f \<longrightarrow>
      upsertedId (normalize (fst (updateOne s f u True))) = None \<and>
      length (docs (snd (updateOne s f u True))) = length (docs s))"
proof (cases "first_match f (docs s)")
  case None
  then show ?thesis
    by (simp add: count_zero_iff updateOne_insert normalize_def)
next
  case (Some i)
  then have "countDocuments s f \<noteq> 0" by (simp add: count_zero_iff)
  with Some show ?thesis
    by (simp add: updateOne_match normalize_def)
qed

theorem upsert_id_iff_insert_witness:
  "countDocuments empty_store scenario_filter = 0 \<and>
   length (docs (snd (updateOne empty_store scenario_filter scenario_update True))) = 1 \<and>
   upsertedId (normalize (fst (updateOne empty_store scenario_filter scenario_update True))) \<noteq> None \<and>
   0 < countDocuments demo_s1 aarti_filter \<and>
   upsertedId (normalize (fst (updateOne demo_s1 aarti_filter adyar_update True))) = None \<and>
   length (docs (snd (updateOne demo_s1 aarti_filter adyar_update True))) = 1"
  using upsert_id_iff_insert[of empty_store scenario_filter scenario_update]
    upsert_id_iff_insert[of demo_s1 aarti_filter adyar_update]
  by (simp add: count_empty count_demo_s1_aarti) (simp add: empty_store_def demo_s1_def)

text \<open>
  Claim C3. A conditional update whose filter matches no document returns the ordinary
  result \<open>matched = 0, modified = 0\<close> without an \<open>upsertedId\<close>, and leaves the collection
  as it was, so the number of documents is unchanged. (\<open>updateOne\<close> has no failing
  outcome: the result is a value like any other, and the script goes on to step C.)
\<close>

theorem conditional_update_no_match:
  "countDocuments s f = 0 \<Longrightarrow>
   normalize (fst (updateOne s f u False)) = \<lparr>matched = 0, modified = 0, upsertedId = None\<rparr> \<and>
   snd (updateOne s f u False) = s \<and>
   length (docs (snd (updateOne s f u False))) = length (docs s)"
  by (simp add: count_zero_iff updateOne_no_match normalize_def)

theorem conditional_update_no_match_witness:
  "countDocuments demo_s2 missing_filter = 0 \<and>
   normalize (fst (demo_stepB demo_s2)) = \<lparr>matched = 0, modified = 0, upsertedId = None\<rparr> \<and>
   snd (demo_stepB demo_s2) = demo_s2"
  using count_demo_s2_missing
    conditional_update_no_match[OF count_demo_s2_missing,
      of "\<lparr>u_set = [(''city'', JStr ''Mumbai'')], u_setOnInsert = []\<rparr>"]
  by (simp add: demo_stepB_def)

text \<open>
  Claim C4, as the store behaves. A conditional update applied twice in a row, with the
  same fields, to the document its filter selects, when that document still matches the
  filter after the first call: the first call reports \<open>matched = 1\<close> and \<open>modified = 1\<close>
  when it changes the document (\<open>modified = 0\<close> when it does not), the second call
  reports \<open>matched = 1, modified = 0\<close>, and the collection after the second call is the
  collection after the first.
\<close>

theorem conditional_update_twice:
  assumes sel: "first_match f (docs s) = Some i"
    and still: "matches f ((docs s ! i)\<lparr>d_fields := set_fields (u_set u) (d_fields (docs s ! i))\<rparr>)"
  shows "normalize (fst (updateOne s f u False)) =
           \<lparr>matched = 1,
            modified = (if set_fields (u_set u) (d_fields (docs s ! i)) = d_fields (docs s ! i) then 0 else 1),
            upsertedId = None\<rparr> \<and>
         normalize (fst (updateOne (snd (updateOne s f u False)) f u False)) =
           \<lparr>matched = 1, modified = 0, upsertedId = None\<rparr> \<and>
         snd (updateOne (snd (updateOne s f u False)) f u False) = snd (updateOne s f u False)"
proof -
  let ?d = "docs s ! i"
  let ?d' = "?d\<lparr>d_fields := set_fields (u_set u) (d_fields ?d)\<rparr>"
  let ?s1 = "s\<lparr>docs := (docs s)[i := ?d']\<rparr>"
  from first_match_Some[OF sel] have i: "i < length (docs s)"
    and before: "\<not> list_ex (matches f) (take i (docs s))" by simp_all
  have s1: "snd (updateOne s f u False) = ?s1"
    using sel by (simp add: updateOne_match)
  have sel1: "first_match f (docs ?s1) = Some i"
    using i still before by (intro first_match_intro) simp_all
  have at: "docs ?s1 ! i = ?d'" using i by simp
  have r1: "normalize (fst (updateOne s f u False)) =
           \<lparr>matched = 1,
            modified = (if set_fields (u_set u) (d_fields ?d) = d_fields ?d then 0 else 1),
            upsertedId = None\<rparr>"
    using sel by (simp add: updateOne_match normalize_def)
  have r2: "normalize (fst (updateOne ?s1 f u False)) = \<lparr>matched = 1, modified = 0, upsertedId = None\<rparr>"
    unfolding updateOne_match[OF sel1] at by (simp add: normalize_def set_fields_idem)
  have s2: "snd (updateOne ?s1 f u False) = ?s1"
    unfolding updateOne_match[OF sel1] at by (simp add: set_fields_idem)
  show ?thesis using r1 r2 s2 unfolding s1 by simp
qed

theorem conditional_update_twice_witness:
  "first_match aarti_filter (docs demo_s1) = Some 0 \<and>
   normalize (fst (updateOne demo_s1 aarti_filter adyar_update False)) =
     \<lparr>matched = 1, modified = 1, upsertedId = None\<rparr> \<and>
   normalize (fst (updateOne (snd (updateOne demo_s1 aarti_filter adyar_update False))
                      aarti_filter adyar_update False)) =
     \<lparr>matched = 1, modified = 0, upsertedId = None\<rparr> \<and>
   snd (updateOne (snd (updateOne demo_s1 aarti_filter adyar_update False))
                      aarti_filter adyar_update False) =
     snd (updateOne demo_s1 aarti_filter adyar_update False)"
proof -
  have changes: "set_fields (u_set adyar_update) (d_fields (docs demo_s1 ! 0)) \<noteq> d_fields (docs demo_s1 ! 0)"
    by (simp add: demo_s1_def adyar_update_def)
  show ?thesis
    using conditional_update_twice[OF first_match_demo_s1 still_matches_demo_s1] changes
      first_match_demo_s1
    by simp
qed

text \<open>
  When the update sets a field that the filter tests, the document no longer matches
  after the first call: with the filter \<open>{city: "Chennai"}\<close> and the update of step A the
  first call reports \<open>matched = 1, modified = 1\<close> and the second \<open>matched = 0\<close>.
\<close>

theorem conditional_update_twice_filter_field:
  "first_match city_filter (docs demo_s1) = Some 0 \<and>
   normalize (fst (updateOne demo_s1 city_filter adyar_update False)) =
     \<lparr>matched = 1, modified = 1, upsertedId = None\<rparr> \<and>
   normalize (fst (updateOne (snd (updateOne demo_s1 city_filter adyar_update False))
                      city_filter adyar_update False)) =
     \<lparr>matched = 0, modified = 0, upsertedId = None\<rparr>"
proof -
  have a: "updateOne demo_s1 city_filter adyar_update False =
     (\<lparr>matchedCount = 1, modifiedCount = 1, upsertedCount = 0, r_upsertedId = None\<rparr>, demo_s2)"
    by (simp add: updateOne_def city_filter_def adyar_update_def matches_def demo_s1_def demo_s2_def)
  have b: "updateOne demo_s2 city_filter adyar_update False =
     (\<lparr>matchedCount = 0, modifiedCount = 0, upsertedCount = 0, r_upsertedId = None\<rparr>, demo_s2)"
    by (simp add: updateOne_def city_filter_def adyar_update_def matches_def demo_s2_def)
  have c: "first_match city_filter (docs demo_s1) = Some 0"
    by (simp add: city_filter_def matches_def demo_s1_def)
  show ?thesis unfolding a snd_conv b by (simp add: c normalize_def)
qed

text \<open>
  Claim C5, as the program behaves. No request but \<open>/clear-data\<close> changes the
  \<open>createdAt\<close> of a stored contact: what a contact has (or lacks) there when it is
  created stays. More generally a write leaves alone, in every stored document, each
  field that is not among its \<open>fieldsToSet\<close>. A contact gets its \<open>createdAt\<close>, the
  clock's reading, at the moment it is created: by \<open>/upsert-contact\<close>, by step C of the
  script (which creates one contact when none matches), and by \<open>/insert-sample\<close>. And in
  general an upsert that creates a document gives it every insert-only field.
\<close>

theorem createdAt_kept:
  "(req \<noteq> ClearData \<longrightarrow> keeps ''createdAt'' s (snd (handle req s))) \<and>
   (k \<notin> fst ` set (u_set u) \<longrightarrow> keeps k s (snd (updateOne s f u b))) \<and>
   (get_prop (body_or_empty body) ''email'' = Some e \<and> truthy e \<and>
    countDocuments s [(''email'', e)] = 0 \<longrightarrow>
      field_of ''createdAt'' (last (docs (snd (upsert_contact body now1 now2 s)))) =
        Some (JDate now2)) \<and>
   list_all (\<lambda>d. field_of ''createdAt'' d = Some (JDate now))
     (new_docs s (snd (demo_stepC now s))) \<and>
   (countDocuments s missing_filter = 0 \<longrightarrow> length (new_docs s (snd (demo_stepC now s))) = 1) \<and>
   list_all (\<lambda>d. field_of ''createdAt'' d = Some (JDate now))
     (new_docs s (snd (insert_sample now s))) \<and>
   (countDocuments s f = 0 \<and> (k, v) \<in> set (u_setOnInsert u) \<and>
    distinct (map fst (u_setOnInsert u)) \<longrightarrow>
      length (new_docs s (snd (updateOne s f u True))) = 1 \<and>
      field_of k (last (docs (snd (updateOne s f u True)))) = Some v)"
proof (intro conjI impI)
  assume "req \<noteq> ClearData"
  then show "keeps ''createdAt'' s (snd (handle req s))" by (rule handle_keeps_createdAt)
next
  assume "k \<notin> fst ` set (u_set u)"
  then show "keeps k s (snd (updateOne s f u b))" by (rule updateOne_keeps)
next
  assume a: "get_prop (body_or_empty body) ''email'' = Some e \<and> truthy e \<and>
    countDocuments s [(''email'', e)] = 0"
  then have none: "first_match [(''email'', e)] (docs s) = None" by (simp add: count_zero_iff)
  from a upsert_contact_target[of body e now1 now2 s] none
  show "field_of ''createdAt'' (last (docs (snd (upsert_contact body now1 now2 s)))) =
        Some (JDate now2)"
    by auto
next
  show "list_all (\<lambda>d. field_of ''createdAt'' d = Some (JDate now))
     (new_docs s (snd (demo_stepC now s)))" by (rule stepC_new_docs)
next
  assume "countDocuments s missing_filter = 0"
  then show "length (new_docs s (snd (demo_stepC now s))) = 1" by (rule stepC_creates)
next
  show "list_all (\<lambda>d. field_of ''createdAt'' d = Some (JDate now))
     (new_docs s (snd (insert_sample now s)))" by (rule insert_sample_new_docs)
next
  assume a: "countDocuments s f = 0 \<and> (k, v) \<in> set (u_setOnInsert u) \<and>
    distinct (map fst (u_setOnInsert u))"
  then have none: "first_match f (docs s) = None" by (simp add: count_zero_iff)
  from insert_only_assigned[OF none, of k v] a
  show "length (new_docs s (snd (updateOne s f u True))) = 1" by simp
next
  assume a: "countDocuments s f = 0 \<and> (k, v) \<in> set (u_setOnInsert u) \<and>
    distinct (map fst (u_setOnInsert u))"
  then have none: "first_match f (docs s) = None" by (simp add: count_zero_iff)
  from insert_only_assigned[OF none, of k v] a
  show "field_of k (last (docs (snd (updateOne s f u True)))) = Some v" by simp
qed

text \<open>
  At work: the request with other tags keeps \<open>createdAt\<close> of the contact that step C
  created, step A keeps it, a request for a new contact sets it, step C sets it on the
  contact it creates, \<open>/insert-sample\<close> sets it on its three contacts, and the upsert of
  scenario 1 gives its new contact the insert-only tags.
\<close>

theorem createdAt_kept_witness:
  "UpsertContact (Some donor_body) 2000 2001 \<noteq> ClearData \<and>
   snd (handle (UpsertContact (Some donor_body) 2000 2001) (demo_s4 1000)) = demo_s5 \<and>
   keeps ''createdAt'' (demo_s4 1000) demo_s5 \<and>
   field_of ''createdAt'' (docs demo_s5 ! 1) = Some (JDate 1000) \<and>
   ''createdAt'' \<notin> fst ` set (u_set adyar_update) \<and>
   keeps ''createdAt'' demo_s1 (snd (updateOne demo_s1 aarti_filter adyar_update False)) \<and>
   get_prop (body_or_empty (Some (JObj [(''email'', JStr ''a@x.com'')]))) ''email'' =
     Some (JStr ''a@x.com'') \<and>
   truthy (JStr ''a@x.com'') \<and>
   countDocuments empty_store [(''email'', JStr ''a@x.com'')] = 0 \<and>
   field_of ''createdAt''
     (last (docs (snd (upsert_contact (Some (JObj [(''email'', JStr ''a@x.com'')])) 2000 2001
                        empty_store)))) = Some (JDate 2001) \<and>
   countDocuments demo_s2 missing_filter = 0 \<and>
   snd (demo_stepC 1000 demo_s2) = demo_s4 1000 \<and>
   length (new_docs demo_s2 (demo_s4 1000)) = 1 \<and>
   list_all (\<lambda>d. field_of ''createdAt'' d = Some (JDate 1000)) (new_docs demo_s2 (demo_s4 1000)) \<and>
   snd (insert_sample 1000 empty_store) = sample_s3 1000 \<and>
   list_all (\<lambda>d. field_of ''createdAt'' d = Some (JDate 1000)) (docs (sample_s3 1000)) \<and>
   countDocuments empty_store scenario_filter = 0 \<and>
   (''tags'', JArr [JStr ''Prospect'']) \<in> set (u_setOnInsert scenario_update) \<and>
   distinct (map fst (u_setOnInsert scenario_update)) \<and>
   field_of ''tags'' (last (docs (snd (updateOne empty_store scenario_filter scenario_update True)))) =
     Some (JArr [JStr ''Prospect''])"
proof -
  have nd: "new_docs empty_store (sample_s3 1000) = docs (sample_s3 1000)"
    by (simp add: new_docs_def empty_store_def)
  have so: "(''tags'', JArr [JStr ''Prospect'']) \<in> set (u_setOnInsert scenario_update)"
    "distinct (map fst (u_setOnInsert scenario_update))"
    by (simp_all add: scenario_update_def)
  show ?thesis
    using createdAt_kept[of "UpsertContact (Some donor_body) 2000 2001" "demo_s4 1000"]
      createdAt_kept[of _ demo_s1 "''createdAt''" adyar_update aarti_filter False]
      createdAt_kept[of _ empty_store _ _ _ _ "Some (JObj [(''email'', JStr ''a@x.com'')])"
        "JStr ''a@x.com''" 2000 2001]
      createdAt_kept[of _ demo_s2 _ _ _ _ _ _ _ _ 1000]
      createdAt_kept[of _ empty_store _ _ _ _ _ _ _ _ 1000]
      createdAt_kept[of _ empty_store "''tags''" scenario_update scenario_filter _ _ _ _ _ _
        "JArr [JStr ''Prospect'']"]
      so
    by (simp add: upsert_donor_s4 count_empty adyar_update_def count_demo_s2_missing stepC_s2
          insert_sample_empty nd)
       (simp add: demo_s5_def field_of_def)
qed

text \<open>
  Not every insert-only field stays, and not every contact gets a \<open>createdAt\<close>: the
  script seeds its first contact without one, and the tags that step C gives its new
  contact as an insert-only field are replaced by a later \<open>/upsert-contact\<close> request
  for the same contact.
\<close>

theorem insert_only_tags_overwritten:
  "field_of ''createdAt'' (docs (snd (runUpdateUpsertDemo 1000 empty_store)) ! 0) = None \<and>
   field_of ''tags'' (docs (snd (runUpdateUpsertDemo 1000 empty_store)) ! 1) =
     Some (JArr [JStr ''Prospect'']) \<and>
   fst (upsert_contact (Some donor_body) 2000 2001 (snd (runUpdateUpsertDemo 1000 empty_store))) =
     Success (OpRes \<lparr>matched = 1, modified = 1, upsertedId = None\<rparr>) \<and>
   field_of ''tags''
     (docs (snd (upsert_contact (Some donor_body) 2000 2001
                   (snd (runUpdateUpsertDemo 1000 empty_store)))) ! 1) =
     Some (JArr [JStr ''Donor''])"
  unfolding demo_first_run upsert_donor_s4
  by (simp add: demo_s4_def demo_s5_def field_of_def)

text \<open>
  Claim C6, as the program behaves. Every write of \<open>/upsert-contact\<close> sets \<open>updatedAt\<close>
  to the clock's reading on the contact it updates or creates. The script of \<open>/run-demo\<close>
  and \<open>/insert-sample\<close> set no \<open>updatedAt\<close>: every stored contact keeps the \<open>updatedAt\<close>
  it had (or stays without), and every contact they create has none.
\<close>

theorem upsert_contact_sets_updatedAt:
  "(get_prop (body_or_empty body) ''email'' = Some e \<and> truthy e \<longrightarrow>
      map_option (field_of ''updatedAt'')
        (find_one (snd (upsert_contact body now1 now2 s)) [(''email'', e)]) =
      Some (Some (JDate now1))) \<and>
   keeps ''updatedAt'' s (snd (run_demo now s)) \<and>
   list_all (\<lambda>d. field_of ''updatedAt'' d = None) (new_docs s (snd (run_demo now s))) \<and>
   keeps ''updatedAt'' s (snd (insert_sample now s)) \<and>
   list_all (\<lambda>d. field_of ''updatedAt'' d = None) (new_docs s (snd (insert_sample now s)))"
proof (intro conjI impI)
  assume "get_prop (body_or_empty body) ''email'' = Some e \<and> truthy e"
  with upsert_contact_target[of body e now1 now2 s]
  show "map_option (field_of ''updatedAt'')
        (find_one (snd (upsert_contact body now1 now2 s)) [(''email'', e)]) =
      Some (Some (JDate now1))"
    by auto
next
  show "keeps ''updatedAt'' s (snd (run_demo now s))"
    by (simp add: run_demo_def split_beta demo_keeps)
next
  show "list_all (\<lambda>d. field_of ''updatedAt'' d = None) (new_docs s (snd (run_demo now s)))"
    by (simp add: run_demo_def split_beta demo_no_updatedAt)
next
  show "keeps ''updatedAt'' s (snd (insert_sample now s))"
    by (rule insert_sample_keeps)
next
  show "list_all (\<lambda>d. field_of ''updatedAt'' d = None) (new_docs s (snd (insert_sample now s)))"
    by (rule insert_sample_no_updatedAt)
qed

theorem upsert_contact_sets_updatedAt_witness:
  "get_prop (body_or_empty (Some donor_body)) ''email'' = Some (JStr ''missing@example.com'') \<and>
   truthy (JStr ''missing@example.com'') \<and>
   snd (upsert_contact (Some donor_body) 2000 2001 (demo_s4 1000)) = demo_s5 \<and>
   map_option (field_of ''updatedAt'') (find_one demo_s5 [(''email'', JStr ''missing@example.com'')]) =
     Some (Some (JDate 2000)) \<and>
   snd (run_demo 1000 empty_store) = demo_s4 1000 \<and>
   list_all (\<lambda>d. field_of ''updatedAt'' d = None) (docs (demo_s4 1000)) \<and>
   snd (insert_sample 1000 empty_store) = sample_s3 1000 \<and>
   list_all (\<lambda>d. field_of ''updatedAt'' d = None) (docs (sample_s3 1000))"
proof -
  have nd: "new_docs empty_store (sample_s3 1000) = docs (sample_s3 1000)"
    "new_docs empty_store (demo_s4 1000) = docs (demo_s4 1000)"
    by (simp_all add: new_docs_def empty_store_def)
  have run: "snd (run_demo 1000 empty_store) = demo_s4 1000"
    by (simp add: run_demo_def split_beta demo_first_run)
  show ?thesis
    using upsert_contact_sets_updatedAt[of "Some donor_body" "JStr ''missing@example.com''"
      2000 2001 "demo_s4 1000"]
      upsert_contact_sets_updatedAt[of _ _ _ _ empty_store 1000]
      donor_body_email
    by (simp add: upsert_donor_s4 run insert_sample_empty nd)
qed

text \<open>
  Step A of the script changes the seeded contact (\<open>modified = 1\<close>) and the contact has
  no \<open>updatedAt\<close> afterwards.
\<close>

theorem demo_stepA_no_updatedAt:
  "modified (updateExisting (fst (runUpdateUpsertDemo 1000 empty_store))) = 1 \<and>
   field_of ''updatedAt'' (docs (snd (runUpdateUpsertDemo 1000 empty_store)) ! 0) = None"
  unfolding demo_first_run stepA_first_run
  by (simp add: demo_s4_def field_of_def)

text \<open>
  Claim C7 at the input \<open>page=abc\<close> (and \<open>pageSize=abc\<close>): \<open>parseInt\<close> gives \<open>NaN\<close>,
  which \<open>Math.max\<close> and \<open>Math.min\<close> pass on, so the page (the page size) is not a number
  and not clamped.
\<close>

theorem list_page_not_a_number:
  "list_page \<lparr>q_page = Some ''abc'', q_pageSize = None, q_city = None, q_tag = None\<rparr> = NaN \<and>
   list_pageSize \<lparr>q_page = None, q_pageSize = Some ''abc'', q_city = None, q_tag = None\<rparr> = NaN"
  by (simp add: list_page_def list_pageSize_def parseInt_def parse_digits_def is_ws_def is_digit_def)

text \<open>
  Claim C8, as the program behaves. Without an \<open>email\<close> in the body the answer is 400
  with the error \<open>email is required\<close>. With an \<open>email\<close> that is truthy the handler performs
  the upsert on the filter \<open>{email}\<close> and answers 200 with the store's result. An answer
  of 400 leaves the collection as it was.
\<close>

theorem upsert_contact_responses:
  "(get_prop (body_or_empty body) ''email'' = None \<longrightarrow>
      upsert_contact body now1 now2 s = (BadRequest ''email is required'', s)) \<and>
   (get_prop (body_or_empty body) ''email'' = Some e \<and> truthy e \<longrightarrow>
      upsert_contact body now1 now2 s =
        (Success (OpRes (normalize (fst (updateOne s [(''email'', e)]
                                         (upsert_update (body_or_empty body) now1 now2) True)))),
         snd (updateOne s [(''email'', e)] (upsert_update (body_or_empty body) now1 now2) True))) \<and>
   (status (fst (upsert_contact body now1 now2 s)) = 400 \<longrightarrow>
      snd (upsert_contact body now1 now2 s) = s)"
proof (intro conjI impI)
  assume "get_prop (body_or_empty body) ''email'' = None"
  then show "upsert_contact body now1 now2 s = (BadRequest ''email is required'', s)"
    by (simp add: upsert_contact_rejected)
next
  assume "get_prop (body_or_empty body) ''email'' = Some e \<and> truthy e"
  then show "upsert_contact body now1 now2 s =
        (Success (OpRes (normalize (fst (updateOne s [(''email'', e)]
                                         (upsert_update (body_or_empty body) now1 now2) True)))),
         snd (updateOne s [(''email'', e)] (upsert_update (body_or_empty body) now1 now2) True))"
    by (simp add: upsert_contact_served)
next
  assume st: "status (fst (upsert_contact body now1 now2 s)) = 400"
  show "snd (upsert_contact body now1 now2 s) = s"
  proof (cases "truthy_opt (get_prop (body_or_empty body) ''email'')")
    case False
    then show ?thesis by (simp add: upsert_contact_rejected)
  next
    case True
    then obtain e where e: "get_prop (body_or_empty body) ''email'' = Some e" "truthy e"
      by (cases "get_prop (body_or_empty body) ''email''") simp_all
    from st show ?thesis by (simp add: upsert_contact_served[OF e])
  qed
qed

theorem upsert_contact_responses_witness:
  "get_prop (body_or_empty (Some (JObj [(''city'', JStr ''Pune'')]))) ''email'' = None \<and>
   upsert_contact (Some (JObj [(''city'', JStr ''Pune'')])) 2000 2001 (demo_s4 1000) =
     (BadRequest ''email is required'', demo_s4 1000) \<and>
   get_prop (body_or_empty (Some donor_body)) ''email'' = Some (JStr ''missing@example.com'') \<and>
   truthy (JStr ''missing@example.com'') \<and>
   upsert_contact (Some donor_body) 2000 2001 (demo_s4 1000) =
     (Success (OpRes \<lparr>matched = 1, modified = 1, upsertedId = None\<rparr>), demo_s5) \<and>
   normalize (fst (updateOne (demo_s4 1000) [(''email'', JStr ''missing@example.com'')]
              (upsert_update (body_or_empty (Some donor_body)) 2000 2001) True)) =
     \<lparr>matched = 1, modified = 1, upsertedId = None\<rparr> \<and>
   snd (updateOne (demo_s4 1000) [(''email'', JStr ''missing@example.com'')]
         (upsert_update (body_or_empty (Some donor_body)) 2000 2001) True) = demo_s5"
  using upsert_contact_responses[of "Some (JObj [(''city'', JStr ''Pune'')])" 2000 2001 "demo_s4 1000"]
    upsert_contact_responses[of "Some donor_body" 2000 2001 "demo_s4 1000"
      "JStr ''missing@example.com''"]
    donor_body_email
  by (simp add: upsert_donor_s4)

text \<open>An \<open>email\<close> that is present but empty is answered with 400, and nothing is written.\<close>

theorem upsert_contact_empty_email:
  "upsert_contact (Some (JObj [(''email'', JStr [])])) 1000 1001 empty_store =
     (BadRequest ''email is required'', empty_store)"
  by (simp add: upsert_contact_def)

text \<open>
  Claim C9. The handler answers 400 with \<open>email is required\<close>, and writes nothing,
  exactly when the email is falsy: when the body is missing, when the email is missing,
  and when it is the empty string, \<open>null\<close>, \<open>0\<close> or \<open>false\<close>. Only a truthy email is
  answered with 200.
\<close>

theorem upsert_contact_falsy_email:
  "((upsert_contact body now1 now2 s = (BadRequest ''email is required'', s)) =
      (\<not> truthy_opt (get_prop (body_or_empty body) ''email''))) \<and>
   status (fst (upsert_contact body now1 now2 s)) =
      (if truthy_opt (get_prop (body_or_empty body) ''email'') then 200 else 400) \<and>
   upsert_contact None now1 now2 s = (BadRequest ''email is required'', s) \<and>
   upsert_contact (Some (JObj ((''email'', JStr []) # rest))) now1 now2 s =
      (BadRequest ''email is required'', s) \<and>
   upsert_contact (Some (JObj ((''email'', JNull) # rest))) now1 now2 s =
      (BadRequest ''email is required'', s) \<and>
   upsert_contact (Some (JObj ((''email'', JNum 0) # rest))) now1 now2 s =
      (BadRequest ''email is required'', s) \<and>
   upsert_contact (Some (JObj ((''email'', JBool False) # rest))) now1 now2 s =
      (BadRequest ''email is required'', s)"
proof -
  have iff: "(upsert_contact body now1 now2 s = (BadRequest ''email is required'', s)) =
      (\<not> truthy_opt (get_prop (body_or_empty body) ''email''))"
  proof (cases "truthy_opt (get_prop (body_or_empty body) ''email'')")
    case False
    then show ?thesis by (simp add: upsert_contact_rejected)
  next
    case True
    then obtain e where e: "get_prop (body_or_empty body) ''email'' = Some e" "truthy e"
      by (cases "get_prop (body_or_empty body) ''email''") simp_all
    show ?thesis using True by (simp add: upsert_contact_served[OF e])
  qed
  have st: "status (fst (upsert_contact body now1 now2 s)) =
      (if truthy_opt (get_prop (body_or_empty body) ''email'') then 200 else 400)"
  proof (cases "truthy_opt (get_prop (body_or_empty body) ''email'')")
    case False
    then show ?thesis by (simp add: upsert_contact_rejected)
  next
    case True
    then obtain e where e: "get_prop (body_or_empty body) ''email'' = Some e" "truthy e"
      by (cases "get_prop (body_or_empty body) ''email''") simp_all
    show ?thesis using True by (simp add: upsert_contact_served[OF e])
  qed
  show ?thesis using iff st by (simp add: upsert_contact_rejected)
qed

text \<open>
  Claim C10. In a request with a truthy email, a falsy \<open>name\<close>, a falsy \<open>city\<close> and
  \<open>tags\<close> that are not an array are left out of \<open>$set\<close>: the request is answered with
  200, the field keeps its value in every stored contact, and the contact the email
  selects has \<open>updatedAt\<close> set to the clock's reading.
\<close>

theorem upsert_contact_omits_fields:
  assumes "get_prop (body_or_empty body) ''email'' = Some e" and "truthy e"
  shows "status (fst (upsert_contact body now1 now2 s)) = 200 \<and>
    (\<not> truthy_opt (get_prop (body_or_empty body) ''name'') \<longrightarrow>
       ''name'' \<notin> fst ` set (upsert_set (body_or_empty body) now1) \<and>
       keeps ''name'' s (snd (upsert_contact body now1 now2 s))) \<and>
    (\<not> truthy_opt (get_prop (body_or_empty body) ''city'') \<longrightarrow>
       ''city'' \<notin> fst ` set (upsert_set (body_or_empty body) now1) \<and>
       keeps ''city'' s (snd (upsert_contact body now1 now2 s))) \<and>
    (\<not> isArray (get_prop (body_or_empty body) ''tags'') \<longrightarrow>
       ''tags'' \<notin> fst ` set (upsert_set (body_or_empty body) now1) \<and>
       keeps ''tags'' s (snd (upsert_contact body now1 now2 s))) \<and>
    map_option (field_of ''updatedAt'')
      (find_one (snd (upsert_contact body now1 now2 s)) [(''email'', e)]) =
    Some (Some (JDate now1))"
proof -
  let ?b = "body_or_empty body"
  have spread: "\<And>c k v. \<not> c \<Longrightarrow> spread_if c k v = []"
    subgoal for c k v by (cases v) simp_all
    done
  have other: "\<And>c k k' v. k' \<noteq> k \<Longrightarrow> k' \<notin> fst ` set (spread_if c k v)"
    subgoal for c k k' v by (cases v) auto
    done
  have name: "''name'' \<notin> fst ` set (upsert_set ?b now1)"
    if "\<not> truthy_opt (get_prop ?b ''name'')"
    using that by (simp add: upsert_set_def spread other image_Un)
  have city: "''city'' \<notin> fst ` set (upsert_set ?b now1)"
    if "\<not> truthy_opt (get_prop ?b ''city'')"
    using that by (simp add: upsert_set_def spread other image_Un)
  have tags: "''tags'' \<notin> fst ` set (upsert_set ?b now1)"
    if "\<not> isArray (get_prop ?b ''tags'')"
    using that by (simp add: upsert_set_def spread other image_Un)
  have st: "status (fst (upsert_contact body now1 now2 s)) = 200"
    by (simp add: upsert_contact_served[OF assms])
  have upd: "map_option (field_of ''updatedAt'')
      (find_one (snd (upsert_contact body now1 now2 s)) [(''email'', e)]) =
    Some (Some (JDate now1))"
    using upsert_contact_target[OF assms, of now1 now2 s] by auto
  show ?thesis
    using st upd name city tags by (simp add: upsert_contact_keeps)
qed

theorem upsert_contact_omits_fields_witness:
  "get_prop (body_or_empty (Some blank_body)) ''email'' = Some (JStr ''aarti@shade.org.in'') \<and>
   truthy (JStr ''aarti@shade.org.in'') \<and>
   \<not> truthy_opt (get_prop (body_or_empty (Some blank_body)) ''name'') \<and>
   \<not> truthy_opt (get_prop (body_or_empty (Some blank_body)) ''city'') \<and>
   \<not> isArray (get_prop (body_or_empty (Some blank_body)) ''tags'') \<and>
   upsert_contact (Some blank_body) 3000 3001 (demo_s4 1000) =
     (Success (OpRes \<lparr>matched = 1, modified = 1, upsertedId = None\<rparr>), demo_s6) \<and>
   keeps ''name'' (demo_s4 1000) demo_s6 \<and>
   keeps ''city'' (demo_s4 1000) demo_s6 \<and>
   keeps ''tags'' (demo_s4 1000) demo_s6 \<and>
   map_option (field_of ''updatedAt'') (find_one demo_s6 [(''email'', JStr ''aarti@shade.org.in'')]) =
     Some (Some (JDate 3000))"
proof -
  have e: "get_prop (body_or_empty (Some blank_body)) ''email'' = Some (JStr ''aarti@shade.org.in'')"
    by (rule blank_body_fields(1))
  have t: "truthy (JStr ''aarti@shade.org.in'')" by simp
  show ?thesis
    using upsert_contact_omits_fields[OF e t, of 3000 3001 "demo_s4 1000"] blank_body_fields
    by (simp add: upsert_blank_s4)
qed

end
